theory Spec2Isabelle
  imports Complex_Main "HOL-Library.Sublist" "HOL-Library.AList"
begin

section \<open>Numbers\<close>

text \<open>
  The numbers of the program are the values of the IEEE 754 binary64 format: \<^verbatim>\<open>NaN\<close>,
  the two infinities (\<open>Infinity True\<close> is the negative one) and the finite values, here
  the reals \<open>m * 2 ^ e\<close> with \<open>\<bar>m\<bar> < 2 ^ 53\<close> and \<open>- 1074 \<le> e \<le> 971\<close>. An operation
  computes the exact result and rounds it to the nearest such value, a tie to the one
  with the even \<open>m\<close>, and to an infinity from \<open>2 ^ 1024 - 2 ^ 970\<close> on. The sign of a zero
  is not represented: it shows only in a division by zero, and the divisors of this
  program are distances that are \<^verbatim>\<open>NaN\<close>, greater than 75 or not smaller than 1.
\<close>

datatype number = NaN | Infinity bool | Finite real

text \<open>The nearest integer, a tie to the even one.\<close>

definition round_half_even :: "real \<Rightarrow> int" where
  "round_half_even q =
     (let f = \<lfloor>q\<rfloor>
      in if q - of_int f < 1 / 2 then f
         else if q - of_int f > 1 / 2 then f + 1
         else if even f then f else f + 1)"

text \<open>
  The exponent of the last binary place of the values around \<open>x\<close>: 52 places below the
  leading one, and \<open>- 1074\<close> in the subnormal range.
\<close>

definition ulp_exponent :: "real \<Rightarrow> int" where
  "ulp_exponent x = max (\<lfloor>log 2 \<bar>x\<bar>\<rfloor> - 52) (- 1074)"

definition grid_value :: "real \<Rightarrow> real" where
  "grid_value x =
     (if x = 0 then 0
      else of_int (round_half_even (x / 2 powi ulp_exponent x)) * 2 powi ulp_exponent x)"

text \<open>The number for a real: what a literal, a parsed text or an operation's result becomes.\<close>

definition number_of :: "real \<Rightarrow> number" where
  "number_of x =
     (if \<bar>grid_value x\<bar> \<ge> 2 ^ 1024 then Infinity (x < 0) else Finite (grid_value x))"

definition representable :: "real \<Rightarrow> bool" where
  "representable x =
     (\<exists>m e. \<bar>m\<bar> < 2 ^ 53 \<and> - 1074 \<le> e \<and> e \<le> 971 \<and> x = of_int m * 2 powi e)"

text \<open>The operators \<^verbatim>\<open>-x\<close>, \<^verbatim>\<open>+\<close>, \<^verbatim>\<open>-\<close>, \<^verbatim>\<open>*\<close>, \<^verbatim>\<open>/\<close>, \<^verbatim>\<open><\<close> and \<^verbatim>\<open>>\<close>.\<close>

fun num_neg :: "number \<Rightarrow> number" where
  "num_neg NaN = NaN"
| "num_neg (Infinity s) = Infinity (\<not> s)"
| "num_neg (Finite x) = Finite (- x)"

fun num_add :: "number \<Rightarrow> number \<Rightarrow> number" where
  "num_add (Finite x) (Finite y) = number_of (x + y)"
| "num_add (Infinity s) (Infinity t) = (if s = t then Infinity s else NaN)"
| "num_add (Infinity s) (Finite y) = Infinity s"
| "num_add (Finite x) (Infinity t) = Infinity t"
| "num_add NaN b = NaN"
| "num_add a NaN = NaN"

definition num_sub :: "number \<Rightarrow> number \<Rightarrow> number" where
  "num_sub a b = num_add a (num_neg b)"

fun num_mul :: "number \<Rightarrow> number \<Rightarrow> number" where
  "num_mul (Finite x) (Finite y) = number_of (x * y)"
| "num_mul (Infinity s) (Infinity t) = Infinity (s \<noteq> t)"
| "num_mul (Infinity s) (Finite y) = (if y = 0 then NaN else Infinity (s \<noteq> (y < 0)))"
| "num_mul (Finite x) (Infinity t) = (if x = 0 then NaN else Infinity ((x < 0) \<noteq> t))"
| "num_mul NaN b = NaN"
| "num_mul a NaN = NaN"

fun num_div :: "number \<Rightarrow> number \<Rightarrow> number" where
  "num_div (Finite x) (Finite y) =
     (if y = 0 then (if x = 0 then NaN else Infinity (x < 0)) else number_of (x / y))"
| "num_div (Infinity s) (Infinity t) = NaN"
| "num_div (Infinity s) (Finite y) = Infinity (s \<noteq> (y < 0))"
| "num_div (Finite x) (Infinity t) = Finite 0"
| "num_div NaN b = NaN"
| "num_div a NaN = NaN"

text \<open>A comparison with \<^verbatim>\<open>NaN\<close> on either side is false.\<close>

fun num_less :: "number \<Rightarrow> number \<Rightarrow> bool" where
  "num_less (Finite x) (Finite y) = (x < y)"
| "num_less (Infinity s) (Infinity t) = (s \<and> \<not> t)"
| "num_less (Infinity s) (Finite y) = s"
| "num_less (Finite x) (Infinity t) = (\<not> t)"
| "num_less NaN b = False"
| "num_less a NaN = False"

definition num_greater :: "number \<Rightarrow> number \<Rightarrow> bool" where
  "num_greater a b = num_less b a"

text \<open>
  \<^verbatim>\<open>Math.sqrt\<close>, \<^verbatim>\<open>Math.max\<close> of two arguments and \<^verbatim>\<open>Math.pow(2, n)\<close> for a loop
  counter \<open>n\<close>. The square root is the correctly rounded one of IEEE 754.
\<close>

fun Math_sqrt :: "number \<Rightarrow> number" where
  "Math_sqrt NaN = NaN"
| "Math_sqrt (Infinity s) = (if s then NaN else Infinity False)"
| "Math_sqrt (Finite x) = (if x < 0 then NaN else number_of (sqrt x))"

definition Math_max :: "number \<Rightarrow> number \<Rightarrow> number" where
  "Math_max a b = (if a = NaN \<or> b = NaN then NaN else if num_less a b then b else a)"

definition Math_pow2 :: "nat \<Rightarrow> number" where
  "Math_pow2 n = number_of (2 ^ n)"

section \<open>Event log (App.tsx, addLog)\<close>

text \<open>
  \<^verbatim>\<open>LogType\<close> and \<^verbatim>\<open>LogEntry\<close> of types.ts. The entry's \<^verbatim>\<open>id\<close> and
  \<^verbatim>\<open>timestamp\<close> are strings built from \<^verbatim>\<open>Date.now()\<close>, \<^verbatim>\<open>Math.random()\<close> and the
  wall clock; the model receives them as arguments.
\<close>

datatype LogType = Info | Council | Stratagem | Error | Success | Attack

record LogEntry =
  entry_id :: string
  timestamp :: string
  entry_type :: LogType
  message :: string
  author :: "string option"

text \<open>
  \<^verbatim>\<open>Array.prototype.slice(start)\<close> for an integer \<^verbatim>\<open>start\<close>: a negative start counts
  from the end and is clamped at the front of the array.
\<close>

definition slice_from :: "int \<Rightarrow> 'a list \<Rightarrow> 'a list" where
  "slice_from start xs =
     (if start < 0 then drop (nat (max (int (length xs) + start) 0)) xs
      else drop (nat start) xs)"

text \<open>
  \<^verbatim>\<open>setLogs(prev => [...prev.slice(-100), {id, timestamp, message, type, author}])\<close>
\<close>

definition addLog :: "string \<Rightarrow> string \<Rightarrow> string \<Rightarrow> LogType \<Rightarrow> string option
    \<Rightarrow> LogEntry list \<Rightarrow> LogEntry list" where
  "addLog new_id now msg ty auth prev =
     slice_from (- 100) prev @
       [\<lparr>entry_id = new_id, timestamp = now, entry_type = ty, message = msg, author = auth\<rparr>]"

section \<open>JavaScript strings and regular expressions (oracle client)\<close>

text \<open>
  Strings are lists of code units; the model covers code units below 256. The white
  space of \<^verbatim>\<open>String.prototype.trim\<close> and of the regular-expression class \<^verbatim>\<open>\s\<close> is,
  in that range, TAB, LF, VT, FF, CR, SPACE and NBSP.
\<close>

definition is_space :: "char \<Rightarrow> bool" where
  "is_space c = (c \<in> set [CHR 0x09, CHR 0x0A, CHR 0x0B, CHR 0x0C, CHR 0x0D, CHR 0x20, CHR 0xA0])"

definition trim :: "string \<Rightarrow> string" where
  "trim s = rev (dropWhile is_space (rev (dropWhile is_space s)))"

text \<open>\<^verbatim>\<open>s.indexOf(c)\<close> and \<^verbatim>\<open>s.lastIndexOf(c)\<close> for a one-character pattern; \<open>None\<close> is -1.\<close>

fun indexOf :: "char \<Rightarrow> string \<Rightarrow> nat option" where
  "indexOf c [] = None"
| "indexOf c (x # xs) = (if x = c then Some 0 else map_option Suc (indexOf c xs))"

definition lastIndexOf :: "char \<Rightarrow> string \<Rightarrow> nat option" where
  "lastIndexOf c s = map_option (\<lambda>j. length s - 1 - j) (indexOf c (rev s))"

text \<open>\<^verbatim>\<open>s.substring(a, b)\<close> for \<open>0 \<le> a \<le> b\<close>.\<close>

definition substring :: "nat \<Rightarrow> nat \<Rightarrow> string \<Rightarrow> string" where
  "substring a b s = take (b - a) (drop a s)"

text \<open>\<^verbatim>\<open>s.includes(pat)\<close>\<close>

definition includes_str :: "string \<Rightarrow> string \<Rightarrow> bool" where
  "includes_str s pat = sublist pat s"

text \<open>The text after the first occurrence of \<open>pat\<close> in a string, if there is one.\<close>

fun after_first :: "string \<Rightarrow> string \<Rightarrow> string option" where
  "after_first pat [] = (if pat = [] then Some [] else None)"
| "after_first pat (c # cs) =
     (if prefix pat (c # cs) then Some (drop (length pat) (c # cs)) else after_first pat cs)"

text \<open>
  \<^verbatim>\<open>s.replace(/<think>[\s\S]*?<\/think>/g, '')\<close>: scanning from the left, an opening
  tag that has a closing tag somewhere after it is removed together with everything up
  to the first such closing tag (the quantifier is lazy), and the scan goes on behind
  it; any other character is kept.
\<close>

function remove_think :: "string \<Rightarrow> string" where
  "remove_think [] = []"
| "remove_think (c # cs) =
     (if prefix ''<think>'' (c # cs) then
        (case after_first ''</think>'' (drop 7 (c # cs)) of
           Some rest \<Rightarrow> remove_think rest
         | None \<Rightarrow> c # remove_think cs)
      else c # remove_think cs)"
  by pat_completeness auto
termination
proof (relation "measure length")
  show "wf (measure length)" by simp
next
  fix c :: char and cs rest :: string
  have shorter: "after_first pat s = Some r \<Longrightarrow> length r \<le> length s" for pat s r
    by (induction s) (auto split: if_splits)
  assume "after_first ''</think>'' (drop 7 (c # cs)) = Some rest"
  then have "length rest \<le> length (drop 7 (c # cs))"
    by (rule shorter)
  then show "(rest, c # cs) \<in> measure length" by simp
qed simp_all

text \<open>
  \<^verbatim>\<open>/```(?:json)?\s*([\s\S]*?)\s*```/\<close>, first match, group 1. After the opening
  fence, the optional \<^verbatim>\<open>json\<close> and the white space are taken greedily; the lazy group
  then is the shortest text that is followed by white space and a closing fence
  (\<open>fence_capture\<close>). Giving back white space or the word \<^verbatim>\<open>json\<close> to the group cannot
  produce a match where the greedy choice has none, since neither contains a backquote;
  so the match at a position is decided by the greedy choice alone.
\<close>

fun fence_capture :: "string \<Rightarrow> string option" where
  "fence_capture [] = None"
| "fence_capture (c # cs) =
     (if prefix ''```'' (dropWhile is_space (c # cs)) then Some []
      else map_option ((#) c) (fence_capture cs))"

fun fence_match :: "string \<Rightarrow> string option" where
  "fence_match [] = None"
| "fence_match (c # cs) =
     (if prefix ''```'' (c # cs) then
        (let r = drop 3 (c # cs);
             r1 = (if prefix ''json'' r then drop 4 r else r);
             r2 = dropWhile is_space r1
         in case fence_capture r2 of
              Some g \<Rightarrow> Some g
            | None \<Rightarrow> fence_match cs)
      else fence_match cs)"

text \<open>
  \<^verbatim>\<open>s.replace(/,\s*([}\]])/g, '$1')\<close>: a comma followed by white space and a closing
  brace or bracket is dropped together with the white space; the scan goes on behind the
  brace.
\<close>

function strip_trailing_commas :: "string \<Rightarrow> string" where
  "strip_trailing_commas [] = []"
| "strip_trailing_commas (c # cs) =
     (if c = CHR '','' then
        (case dropWhile is_space cs of
           d # ds \<Rightarrow>
             if d = CHR ''}'' \<or> d = CHR '']'' then d # strip_trailing_commas ds
             else c # strip_trailing_commas cs
         | [] \<Rightarrow> c # strip_trailing_commas cs)
      else c # strip_trailing_commas cs)"
  by pat_completeness auto
termination
proof (relation "measure length")
  show "wf (measure length)" by simp
next
  fix c d :: char and cs ds :: string
  assume "dropWhile is_space cs = d # ds"
  moreover have "length (dropWhile is_space cs) \<le> length cs"
    by (rule length_dropWhile_le)
  ultimately show "(ds, c # cs) \<in> measure length" by simp
qed simp_all

text \<open>
  The \<^verbatim>\<open>else\<close> branch of \<^verbatim>\<open>cleanAndParseJson\<close>: the text from the first \<^verbatim>\<open>{\<close> to the
  last \<^verbatim>\<open>}\<close> when both exist in that order, the string itself otherwise.
\<close>

definition brace_extract :: "string \<Rightarrow> string" where
  "brace_extract s =
     (case (indexOf (CHR ''{'') s, lastIndexOf (CHR ''}'') s) of
        (Some firstBrace, Some lastBrace) \<Rightarrow>
          if lastBrace > firstBrace then substring firstBrace (lastBrace + 1) s else s
      | _ \<Rightarrow> s)"

section \<open>Decision oracle client (services/geminiService.ts)\<close>

text \<open>
  The values \<^verbatim>\<open>JSON.parse\<close> returns. \<^verbatim>\<open>JSON.parse\<close> itself is a built-in of the
  platform: the functions below take it as the argument \<open>parse\<close>, which returns the
  parsed value or the message of the \<^verbatim>\<open>SyntaxError\<close> it throws. The wording of that
  message is the engine's own and may quote the rejected text.
\<close>

datatype json =
    JNull
  | JBool bool
  | JNum number
  | JStr string
  | JArr "json list"
  | JObj "(string \<times> json) list"

type_synonym json_parser = "string \<Rightarrow> string + json"

text \<open>A thrown value: an \<^verbatim>\<open>Error\<close> instance with its message, or anything else.\<close>

datatype js_error = JsError string | NonError

text \<open>
  Property access on a parsed value, \<open>None\<close> for \<^verbatim>\<open>undefined\<close>. An object yields the
  value of the last member with that key; the keys read by this program are no
  properties of arrays, strings, numbers or booleans.
\<close>

fun get_prop :: "json \<Rightarrow> string \<Rightarrow> json option" where
  "get_prop (JObj kvs) k = map_of (rev kvs) k"
| "get_prop _ k = None"

text \<open>Optional chaining \<^verbatim>\<open>v?.k\<close>: \<^verbatim>\<open>undefined\<close> when \<open>v\<close> is \<^verbatim>\<open>undefined\<close> or \<^verbatim>\<open>null\<close>.\<close>

definition opt_prop :: "json option \<Rightarrow> string \<Rightarrow> json option" where
  "opt_prop v k = (case v of None \<Rightarrow> None | Some JNull \<Rightarrow> None | Some j \<Rightarrow> get_prop j k)"

text \<open>A parsed value as a condition.\<close>

fun js_truthy :: "json \<Rightarrow> bool" where
  "js_truthy JNull = False"
| "js_truthy (JBool b) = b"
| "js_truthy (JNum n) = (n \<noteq> Finite 0 \<and> n \<noteq> NaN)"
| "js_truthy (JStr s) = (s \<noteq> [])"
| "js_truthy (JArr _) = True"
| "js_truthy (JObj _) = True"

subsection \<open>cleanAndParseJson\<close>

definition cleanAndParseJson :: "json_parser \<Rightarrow> string \<Rightarrow> js_error + json" where
  "cleanAndParseJson parse jsonStr =
     (let cleanStr0 = trim jsonStr;
          cleanStr1 = trim (remove_think cleanStr0);
          cleanStr2 =
            (case fence_match cleanStr1 of
               Some g \<Rightarrow> if g \<noteq> [] then trim g else brace_extract cleanStr1
             | None \<Rightarrow> brace_extract cleanStr1);
          cleanStr3 = strip_trailing_commas cleanStr2
      in case parse cleanStr3 of
           Inr v \<Rightarrow> Inr v
         | Inl m \<Rightarrow> Inl (JsError (''Invalid JSON format after cleaning. Details: '' @ m)))"

subsection \<open>parseRetryDelay\<close>

definition is_digit :: "char \<Rightarrow> bool" where
  "is_digit c = (c \<in> set ''0123456789'')"

text \<open>
  \<^verbatim>\<open>retryDelay.match(/^(\d+(\.\d+)?)s$/)\<close>, group 1: digits, optionally a point and
  digits, then the letter s and the end of the string.
\<close>

definition match_delay :: "string \<Rightarrow> string option" where
  "match_delay s =
     (let ds = takeWhile is_digit s; r1 = dropWhile is_digit s in
      if ds = [] then None
      else if r1 = ''s'' then Some ds
      else (case r1 of
              [] \<Rightarrow> None
            | c # r2 \<Rightarrow>
                if c = CHR ''.'' then
                  (let fs = takeWhile is_digit r2; r3 = dropWhile is_digit r2 in
                   if fs \<noteq> [] \<and> r3 = ''s'' then Some (ds @ ''.'' @ fs) else None)
                else None))"

definition digit_val :: "char \<Rightarrow> nat" where
  "digit_val c = of_char c - 48"

definition digits_val :: "string \<Rightarrow> nat" where
  "digits_val ds = foldl (\<lambda>n c. 10 * n + digit_val c) 0 ds"

text \<open>
  \<^verbatim>\<open>parseFloat\<close> on a string of the shape \<^verbatim>\<open>\d+(\.\d+)?\<close>: the number for the decimal
  value that the text denotes.
\<close>

definition decimal_value :: "string \<Rightarrow> real" where
  "decimal_value s =
     (let ds = takeWhile is_digit s; fs = drop 1 (dropWhile is_digit s) in
      real (digits_val ds) + real (digits_val fs) / 10 ^ length fs)"

definition parseFloat :: "string \<Rightarrow> number" where
  "parseFloat s = number_of (decimal_value s)"

text \<open>
  \<^verbatim>\<open>details.find(d => d['@type'] === '...RetryInfo')\<close> on an array: the outer \<open>None\<close> is
  the \<^verbatim>\<open>TypeError\<close> of reading a property of \<^verbatim>\<open>null\<close>, \<open>Some None\<close> is \<^verbatim>\<open>undefined\<close>.
\<close>

fun find_RetryInfo :: "json list \<Rightarrow> json option option" where
  "find_RetryInfo [] = Some None"
| "find_RetryInfo (d # ds) =
     (if d = JNull then None
      else if get_prop d ''@type'' = Some (JStr ''type.googleapis.com/google.rpc.RetryInfo'')
        then Some (Some d)
      else find_RetryInfo ds)"

text \<open>
  Every exception inside \<^verbatim>\<open>parseRetryDelay\<close> (a \<^verbatim>\<open>SyntaxError\<close> of \<^verbatim>\<open>JSON.parse\<close>, a
  \<^verbatim>\<open>TypeError\<close> of calling \<^verbatim>\<open>find\<close> on a value that is no array or \<^verbatim>\<open>match\<close> on a
  value that is no string) is caught and gives \<^verbatim>\<open>null\<close>, here \<open>None\<close>.
\<close>

definition parseRetryDelay :: "json_parser \<Rightarrow> string \<Rightarrow> number option" where
  "parseRetryDelay parse errorMessage =
     (case indexOf (CHR ''{'') errorMessage of
        None \<Rightarrow> None
      | Some jsonStartIndex \<Rightarrow>
          (case parse (drop jsonStartIndex errorMessage) of
             Inl _ \<Rightarrow> None
           | Inr errorData \<Rightarrow>
               (case opt_prop (opt_prop (Some errorData) ''error'') ''details'' of
                  Some (JArr details) \<Rightarrow>
                    (case find_RetryInfo details of
                       Some (Some retryInfo) \<Rightarrow>
                         (case get_prop retryInfo ''retryDelay'' of
                            None \<Rightarrow> None
                          | Some retryDelay \<Rightarrow>
                              if js_truthy retryDelay then
                                (case retryDelay of
                                   JStr text \<Rightarrow>
                                     (case match_delay text of
                                        Some m \<Rightarrow> Some (num_mul (parseFloat m) (Finite 1000))
                                      | None \<Rightarrow> None)
                                 | _ \<Rightarrow> None)
                              else None)
                     | _ \<Rightarrow> None)
                | _ \<Rightarrow> None)))"

subsection \<open>getGoogleAIAction\<close>

definition MAX_RETRIES :: nat where
  "MAX_RETRIES = 3"

text \<open>
  One call of \<^verbatim>\<open>ai.models.generateContent\<close>: it throws, or it answers with
  \<^verbatim>\<open>response.text\<close>, which may be \<^verbatim>\<open>undefined\<close>.
\<close>

datatype backend_outcome = Failed js_error | Responded "string option"

text \<open>
  The body of the \<^verbatim>\<open>try\<close>: the call and \<^verbatim>\<open>cleanAndParseJson(response.text)\<close>, whose
  own exceptions reach the same \<^verbatim>\<open>catch\<close>.
\<close>

definition attempt_body :: "json_parser \<Rightarrow> backend_outcome \<Rightarrow> js_error + json" where
  "attempt_body parse out =
     (case out of
        Failed e \<Rightarrow> Inl e
      | Responded None \<Rightarrow> Inl (JsError ''Cannot read properties of undefined'')
      | Responded (Some text) \<Rightarrow> cleanAndParseJson parse text)"

definition isRateLimitError :: "js_error \<Rightarrow> bool" where
  "isRateLimitError e =
     (case e of
        JsError m \<Rightarrow> includes_str m ''429'' \<or> includes_str m ''RESOURCE_EXHAUSTED''
      | NonError \<Rightarrow> False)"

fun err_message :: "js_error \<Rightarrow> string" where
  "err_message (JsError m) = m"
| "err_message NonError = []"

text \<open>
  What one run of \<^verbatim>\<open>getGoogleAIAction\<close> does: the value returned or the error thrown,
  the number of backend calls made, the waits slept (\<^verbatim>\<open>finalWaitMs\<close>, in order) and
  the retry notices passed to \<^verbatim>\<open>logProgress\<close> (the wait and the attempt number that
  the message shows).
\<close>

record oracle_run =
  outcome :: "js_error + json"
  calls :: nat
  waits :: "number list"
  notices :: "(number \<times> nat) list"

definition baseWaitMs :: "json_parser \<Rightarrow> nat \<Rightarrow> js_error \<Rightarrow> number" where
  "baseWaitMs parse attempt err =
     (if attempt = 1 then
        (case parseRetryDelay parse (err_message err) of
           Some apiSuggestedDelay \<Rightarrow> apiSuggestedDelay
         | None \<Rightarrow> Finite 2000)
      else num_mul (Math_pow2 attempt) (Finite 1000))"

definition jitter :: "number \<Rightarrow> number" where
  "jitter random = num_mul (num_sub random (Finite (1 / 2))) (Finite 1000)"

definition finalWaitMs :: "json_parser \<Rightarrow> nat \<Rightarrow> js_error \<Rightarrow> number \<Rightarrow> number" where
  "finalWaitMs parse attempt err random =
     Math_max (Finite 500) (num_add (baseWaitMs parse attempt err) (jitter random))"

text \<open>
  The \<^verbatim>\<open>for\<close> loop over \<^verbatim>\<open>attempt\<close>. \<open>backend n\<close> is the outcome of the call made in
  attempt \<open>n\<close>, \<open>random n\<close> the value \<^verbatim>\<open>Math.random()\<close> returns there (a number in \<open>[0, 1)\<close>).
\<close>

function attempt_loop ::
  "json_parser \<Rightarrow> (nat \<Rightarrow> backend_outcome) \<Rightarrow> (nat \<Rightarrow> number) \<Rightarrow> nat \<Rightarrow> oracle_run \<Rightarrow> oracle_run" where
  "attempt_loop parse backend random attempt run =
     (if attempt \<le> MAX_RETRIES then
        (case attempt_body parse (backend attempt) of
           Inr v \<Rightarrow> run\<lparr>outcome := Inr v, calls := calls run + 1\<rparr>
         | Inl err \<Rightarrow>
             if isRateLimitError err \<and> attempt < MAX_RETRIES then
               (let w = finalWaitMs parse attempt err (random attempt) in
                attempt_loop parse backend random (attempt + 1)
                  (run\<lparr>calls := calls run + 1, waits := waits run @ [w],
                       notices := notices run @ [(w, attempt)]\<rparr>))
             else run\<lparr>outcome := Inl err, calls := calls run + 1\<rparr>)
      else run\<lparr>outcome := Inl (JsError ''Exceeded max retries (3) for Google AI API.'')\<rparr>)"
  by pat_completeness auto
termination
  by (relation "measure (\<lambda>(parse, backend, random, attempt, run). MAX_RETRIES + 1 - attempt)") auto

text \<open>
  \<open>ai_ready\<close>: the client object \<^verbatim>\<open>ai\<close> exists, that is, an API key was found. The
  loop starts with an empty record; its outcome field is set on every path through the
  loop.
\<close>

definition getGoogleAIAction ::
  "bool \<Rightarrow> json_parser \<Rightarrow> (nat \<Rightarrow> backend_outcome) \<Rightarrow> (nat \<Rightarrow> number) \<Rightarrow> oracle_run" where
  "getGoogleAIAction ai_ready parse backend random =
     (if \<not> ai_ready then
        \<lparr>outcome = Inl (JsError ''GoogleGenAI not initialized. API_KEY is missing.''),
         calls = 0, waits = [], notices = []\<rparr>
      else attempt_loop parse backend random 1
        \<lparr>outcome = Inl NonError, calls = 0, waits = [], notices = []\<rparr>)"

text \<open>An attempt fails with an error of the rate-limit class.\<close>

definition rate_limited :: "json_parser \<Rightarrow> backend_outcome \<Rightarrow> bool" where
  "rate_limited parse out =
     (case attempt_body parse out of Inl e \<Rightarrow> isRateLimitError e | Inr _ \<Rightarrow> False)"

subsection \<open>A reference JSON.parse\<close>

text \<open>
  A parser for the JSON grammar (ECMA-404) over the strings of this model, used where a
  theorem evaluates the client on a concrete text. The characters of this model are the
  256 of type \<open>char\<close>: a \<^verbatim>\<open>\u\<close> escape is read when it denotes one of them, and a text with
  another one is outside the model (it is rejected here). The recursion over values is on
  a fuel argument that bounds the nesting and the number of elements; \<open>JSON_parse\<close> starts
  it with more than the text can use.
\<close>

definition dq :: char where
  "dq = CHR 0x22"

definition backslash :: char where
  "backslash = CHR 0x5C"

definition json_ws :: "char \<Rightarrow> bool" where
  "json_ws c = (c \<in> set [CHR 0x20, CHR 0x09, CHR 0x0A, CHR 0x0D])"

definition unescape :: "char \<Rightarrow> char option" where
  "unescape e =
     (if e = dq then Some dq
      else if e = backslash then Some backslash
      else if e = CHR ''/'' then Some (CHR ''/'')
      else if e = CHR ''b'' then Some (CHR 0x08)
      else if e = CHR ''f'' then Some (CHR 0x0C)
      else if e = CHR ''n'' then Some (CHR 0x0A)
      else if e = CHR ''r'' then Some (CHR 0x0D)
      else if e = CHR ''t'' then Some (CHR 0x09)
      else None)"

text \<open>The four hexadecimal digits after \<^verbatim>\<open>\u\<close>: the character and the text behind them.\<close>

definition hex_val :: "char \<Rightarrow> nat option" where
  "hex_val c =
     (if is_digit c then Some (of_char c - 48)
      else if c \<in> set ''abcdef'' then Some (of_char c - 87)
      else if c \<in> set ''ABCDEF'' then Some (of_char c - 55)
      else None)"

definition unicode_escape :: "string \<Rightarrow> (char \<times> string) option" where
  "unicode_escape s =
     (case map hex_val (take 4 s) of
        [Some a, Some b, Some c, Some d] \<Rightarrow>
          if a = 0 \<and> b = 0 then Some (char_of (16 * c + d), drop 4 s) else None
      | _ \<Rightarrow> None)"

text \<open>The characters of a string literal after its opening quote, and the text behind it.\<close>

function parse_string_body :: "string \<Rightarrow> (string \<times> string) option" where
  "parse_string_body [] = None"
| "parse_string_body [c] = (if c = dq then Some ([], []) else None)"
| "parse_string_body (c # e # es) =
     (if c = dq then Some ([], e # es)
      else if c = backslash then
        (if e = CHR ''u'' then
           (case unicode_escape es of
              None \<Rightarrow> None
            | Some (ch, r) \<Rightarrow> map_option (\<lambda>(s, r'). (ch # s, r')) (parse_string_body r))
         else
           (case unescape e of
              None \<Rightarrow> None
            | Some ch \<Rightarrow> map_option (\<lambda>(s, r). (ch # s, r)) (parse_string_body es)))
      else if (of_char c :: nat) < 0x20 then None
      else map_option (\<lambda>(s, r). (c # s, r)) (parse_string_body (e # es)))"
  by pat_completeness auto
termination
  by (relation "measure length")
     (auto simp: unicode_escape_def split: list.splits option.splits if_splits)

text \<open>
  A number: an optional minus, an integer part without a leading zero, an optional
  fraction and an optional exponent. Its value is the number for the decimal value.
\<close>

definition parse_number :: "string \<Rightarrow> (json \<times> string) option" where
  "parse_number s =
     (let neg = (take 1 s = ''-'');
          s1 = (if neg then drop 1 s else s);
          ds = takeWhile is_digit s1;
          s2 = dropWhile is_digit s1;
          has_frac = (take 1 s2 = ''.'');
          fs = (if has_frac then takeWhile is_digit (drop 1 s2) else []);
          s3 = (if has_frac then dropWhile is_digit (drop 1 s2) else s2);
          has_exp = (take 1 s3 = ''e'' \<or> take 1 s3 = ''E'');
          s4 = (if has_exp then drop 1 s3 else s3);
          eneg = (has_exp \<and> take 1 s4 = ''-'');
          s5 = (if has_exp \<and> (take 1 s4 = ''-'' \<or> take 1 s4 = ''+'') then drop 1 s4 else s4);
          es = (if has_exp then takeWhile is_digit s5 else []);
          s6 = (if has_exp then dropWhile is_digit s5 else s3);
          mant = real (digits_val ds) + real (digits_val fs) / 10 ^ length fs;
          scaled = (if eneg then mant / 10 ^ digits_val es else mant * 10 ^ digits_val es)
      in if ds = [] \<or> (length ds > 1 \<and> hd ds = CHR ''0'') \<or> (has_frac \<and> fs = [])
            \<or> (has_exp \<and> es = []) then None
         else Some (JNum (number_of (if neg then - scaled else scaled)), s6))"

fun parse_value :: "nat \<Rightarrow> string \<Rightarrow> (json \<times> string) option"
  and parse_elements :: "nat \<Rightarrow> string \<Rightarrow> json list \<Rightarrow> (json \<times> string) option"
  and parse_members :: "nat \<Rightarrow> string \<Rightarrow> (string \<times> json) list \<Rightarrow> (json \<times> string) option"
where
  "parse_value 0 s = None"
| "parse_value (Suc n) s =
     (case dropWhile json_ws s of
        [] \<Rightarrow> None
      | c # cs \<Rightarrow>
          if c = CHR ''{'' then
            (case dropWhile json_ws cs of
               [] \<Rightarrow> None
             | d # ds \<Rightarrow> if d = CHR ''}'' then Some (JObj [], ds) else parse_members n cs [])
          else if c = CHR ''['' then
            (case dropWhile json_ws cs of
               [] \<Rightarrow> None
             | d # ds \<Rightarrow> if d = CHR '']'' then Some (JArr [], ds) else parse_elements n cs [])
          else if c = dq then map_option (\<lambda>(s, r). (JStr s, r)) (parse_string_body cs)
          else if prefix ''true'' (c # cs) then Some (JBool True, drop 4 (c # cs))
          else if prefix ''false'' (c # cs) then Some (JBool False, drop 5 (c # cs))
          else if prefix ''null'' (c # cs) then Some (JNull, drop 4 (c # cs))
          else parse_number (c # cs))"
| "parse_elements 0 s acc = None"
| "parse_elements (Suc n) s acc =
     (case parse_value n s of
        None \<Rightarrow> None
      | Some (v, r) \<Rightarrow>
          (case dropWhile json_ws r of
             [] \<Rightarrow> None
           | d # ds \<Rightarrow>
               if d = CHR '','' then parse_elements n ds (acc @ [v])
               else if d = CHR '']'' then Some (JArr (acc @ [v]), ds)
               else None))"
| "parse_members 0 s acc = None"
| "parse_members (Suc n) s acc =
     (case dropWhile json_ws s of
        [] \<Rightarrow> None
      | q # qs \<Rightarrow>
          if q = dq then
            (case parse_string_body qs of
               None \<Rightarrow> None
             | Some (k, r) \<Rightarrow>
                 (case dropWhile json_ws r of
                    [] \<Rightarrow> None
                  | c # cs \<Rightarrow>
                      if c = CHR '':'' then
                        (case parse_value n cs of
                           None \<Rightarrow> None
                         | Some (v, r2) \<Rightarrow>
                             (case dropWhile json_ws r2 of
                                [] \<Rightarrow> None
                              | d # ds \<Rightarrow>
                                  if d = CHR '','' then parse_members n ds (acc @ [(k, v)])
                                  else if d = CHR ''}'' then Some (JObj (acc @ [(k, v)]), ds)
                                  else None))
                      else None))
          else None)"

text \<open>
  The message of the syntax error. The language standard leaves its wording to the
  engine; this is the wording of V8 for a short text whose first token is rejected,
  which quotes the whole text. (For an error further on V8 names another token; the
  theorems that hold for every engine take the parser as an argument.)
\<close>

definition syntax_error_message :: "string \<Rightarrow> string" where
  "syntax_error_message s =
     (case dropWhile json_ws s of
        [] \<Rightarrow> ''Unexpected end of JSON input''
      | c # _ \<Rightarrow>
          ''Unexpected token '' @ [CHR 0x27, c, CHR 0x27] @ '', '' @ [dq] @ s @ [dq] @
          '' is not valid JSON'')"

definition JSON_parse :: json_parser where
  "JSON_parse s =
     (case parse_value (2 * length s + 2) s of
        None \<Rightarrow> Inl (syntax_error_message s)
      | Some (v, r) \<Rightarrow>
          if dropWhile json_ws r = [] then Inr v else Inl (syntax_error_message s))"

text \<open>Building JSON text: a quoted string, and a markdown fence around a text.\<close>

definition quoted :: "string \<Rightarrow> string" where
  "quoted s = dq # s @ [dq]"

definition fenced :: "string \<Rightarrow> string" where
  "fenced s = ''```json'' @ [CHR 0x0A] @ s @ [CHR 0x0A] @ ''```''"

section \<open>World state (types.ts) and the tick engine (App.tsx)\<close>

text \<open>
  Coordinates are numbers. Health is modelled as an integer: it starts at 100 and the
  only write to it is \<^verbatim>\<open>Math.max(0, health - 5)\<close>, which is exact on these values.
  \<open>drone_id\<close> is the field \<^verbatim>\<open>id\<close>; \<open>targetId = None\<close> is \<^verbatim>\<open>null\<close>.
\<close>

datatype DroneStatus = Idle | Moving | Assessing | Executing | Attacking | Disabled

datatype SwarmId = blue | red

datatype SimulationState = Stopped | Running | Paused

record Vector =
  vec_x :: number
  vec_y :: number

record Drone =
  drone_id :: string
  swarmId :: SwarmId
  position :: Vector
  status :: DroneStatus
  targetPosition :: Vector
  health :: int
  targetId :: "string option"

definition SIMULATION_WIDTH :: number where "SIMULATION_WIDTH = Finite 800"
definition SIMULATION_HEIGHT :: number where "SIMULATION_HEIGHT = Finite 600"
definition DRONE_COUNT_PER_SWARM :: nat where "DRONE_COUNT_PER_SWARM = 5"
definition DRONE_SPEED :: number where "DRONE_SPEED = Finite 1"
definition DRONE_HEALTH :: int where "DRONE_HEALTH = 100"
definition ATTACK_RANGE :: number where "ATTACK_RANGE = Finite 75"
definition ATTACK_DAMAGE :: int where "ATTACK_DAMAGE = 5"

text \<open>The decimal digit of an index below 10, as the template string prints it.\<close>

definition digit_char :: "nat \<Rightarrow> char" where
  "digit_char i = ''0123456789'' ! i"

definition createInitialSwarm :: "SwarmId \<Rightarrow> Drone list" where
  "createInitialSwarm swarm =
     map (\<lambda>i.
        let isBlue = (swarm = blue);
            y_base = (if isBlue then num_sub SIMULATION_HEIGHT (Finite 100) else Finite 100);
            x_base =
              num_add
                (num_sub (num_div SIMULATION_WIDTH (Finite 2))
                   (num_mul (num_div (Finite (real DRONE_COUNT_PER_SWARM)) (Finite 2)) (Finite 60)))
                (num_mul (Finite (real i)) (Finite 60));
            pos = \<lparr>vec_x = x_base, vec_y = y_base\<rparr>
        in \<lparr>drone_id = (if isBlue then ''b'' else ''r'') @ ''-drone-'' @ [digit_char i],
            swarmId = swarm,
            position = pos,
            status = Idle,
            targetPosition = pos,
            health = DRONE_HEALTH,
            targetId = None\<rparr>)
       [0 ..< DRONE_COUNT_PER_SWARM]"

subsection \<open>One tick\<close>

text \<open>
  \<^verbatim>\<open>nextDronesState\<close> is a \<^verbatim>\<open>Map\<close> from id to a copy of the drone, in insertion order:
  an association list, where setting a key that is present replaces its value in place.
  The loop body reads and writes the drones through the map, so that a write to the
  target is seen when the target's own turn comes. \<open>modify\<close> is a field write on the
  object stored under a key.
\<close>

type_synonym drone_map = "(string \<times> Drone) list"

definition snapshot :: "Drone list \<Rightarrow> drone_map" where
  "snapshot ds = foldl (\<lambda>m d. AList.update (drone_id d) d m) [] ds"

definition modify :: "string \<Rightarrow> (Drone \<Rightarrow> Drone) \<Rightarrow> drone_map \<Rightarrow> drone_map" where
  "modify k f m = map (\<lambda>(k', d). if k' = k then (k', f d) else (k', d)) m"

text \<open>\<^verbatim>\<open>drone.position.x += (dx / distance) * DRONE_SPEED\<close>, and the same for \<^verbatim>\<open>y\<close>.\<close>

definition advance :: "number \<Rightarrow> number \<Rightarrow> number \<Rightarrow> Drone \<Rightarrow> Drone" where
  "advance dx dy distance d =
     d\<lparr>position :=
         \<lparr>vec_x = num_add (vec_x (position d)) (num_mul (num_div dx distance) DRONE_SPEED),
          vec_y = num_add (vec_y (position d)) (num_mul (num_div dy distance) DRONE_SPEED)\<rparr>\<rparr>"

text \<open>\<^verbatim>\<open>drone.targetId\<close> as a condition: neither \<^verbatim>\<open>null\<close> nor the empty string.\<close>

definition truthy_id :: "string option \<Rightarrow> bool" where
  "truthy_id t = (case t of None \<Rightarrow> False | Some s \<Rightarrow> s \<noteq> [])"

text \<open>
  The branch of an attacker whose target is present and not disabled. \<open>k\<close> is the
  attacker's key, \<open>tid\<close> the target's.
\<close>

definition engage :: "string \<Rightarrow> Drone \<Rightarrow> string \<Rightarrow> Drone \<Rightarrow> drone_map \<Rightarrow> drone_map" where
  "engage k drone tid target m =
     (let dx = num_sub (vec_x (position target)) (vec_x (position drone));
          dy = num_sub (vec_y (position target)) (vec_y (position drone));
          distance = Math_sqrt (num_add (num_mul dx dx) (num_mul dy dy))
      in if num_greater distance ATTACK_RANGE then modify k (advance dx dy distance) m
         else
           (let m1 = modify tid (\<lambda>t. t\<lparr>health := max 0 (health t - ATTACK_DAMAGE)\<rparr>) m
            in case map_of m1 tid of
                 None \<Rightarrow> m1
               | Some target1 \<Rightarrow>
                   if health target1 = 0 then
                     modify k (\<lambda>d. d\<lparr>status := Idle, targetId := None\<rparr>)
                       (modify tid (\<lambda>t. t\<lparr>status := Disabled\<rparr>) m1)
                   else m1))"

text \<open>The branch of a moving drone.\<close>

definition move_step :: "string \<Rightarrow> Drone \<Rightarrow> drone_map \<Rightarrow> drone_map" where
  "move_step k drone m =
     (let dx = num_sub (vec_x (targetPosition drone)) (vec_x (position drone));
          dy = num_sub (vec_y (targetPosition drone)) (vec_y (position drone));
          distance = Math_sqrt (num_add (num_mul dx dx) (num_mul dy dy))
      in if num_less distance DRONE_SPEED then
           modify k (\<lambda>d. d\<lparr>position := targetPosition d, status := Idle\<rparr>) m
         else modify k (advance dx dy distance) m)"

text \<open>
  The body of \<^verbatim>\<open>for (const drone of nextDronesState.values())\<close> for the drone stored
  under \<open>k\<close>. The log lines of the attack branch are not modelled: nothing in a tick
  reads the log.
\<close>

definition drone_step :: "string \<Rightarrow> drone_map \<Rightarrow> drone_map" where
  "drone_step k m =
     (case map_of m k of
        None \<Rightarrow> m
      | Some drone \<Rightarrow>
          if status drone = Disabled then m
          else if status drone = Attacking \<and> truthy_id (targetId drone) then
            (case map_of m (the (targetId drone)) of
               None \<Rightarrow> modify k (\<lambda>d. d\<lparr>status := Idle, targetId := None\<rparr>) m
             | Some target \<Rightarrow>
                 if status target \<noteq> Disabled then engage k drone (the (targetId drone)) target m
                 else modify k (\<lambda>d. d\<lparr>status := Idle, targetId := None\<rparr>) m)
          else if status drone = Moving then move_step k drone m
          else m)"

definition tick_loop :: "drone_map \<Rightarrow> drone_map" where
  "tick_loop m = foldl (\<lambda>m k. drone_step k m) m (map fst m)"

record World =
  blueDrones :: "Drone list"
  redDrones :: "Drone list"
  simulationState :: SimulationState
  thinkingDrones :: "string set"

text \<open>
  The interval handler: the new rosters are the map's values split by swarm, and the
  simulation stops when a swarm has no drone left that is not disabled.
\<close>

definition tick :: "World \<Rightarrow> World" where
  "tick w =
     (let nextDronesState = tick_loop (snapshot (blueDrones w @ redDrones w));
          newBlue = filter (\<lambda>d. swarmId d = blue) (map snd nextDronesState);
          newRed = filter (\<lambda>d. swarmId d \<noteq> blue) (map snd nextDronesState);
          aliveBlue = list_ex (\<lambda>d. status d \<noteq> Disabled) newBlue;
          aliveRed = list_ex (\<lambda>d. status d \<noteq> Disabled) newRed
      in w\<lparr>blueDrones := newBlue, redDrones := newRed,
            simulationState := (if \<not> aliveBlue \<or> \<not> aliveRed then Stopped else simulationState w)\<rparr>)"

definition initial_world :: World where
  "initial_world =
     \<lparr>blueDrones = createInitialSwarm blue, redDrones = createInitialSwarm red,
      simulationState = Stopped, thinkingDrones = {}\<rparr>"

section \<open>Agent decision scheduler (App.tsx, runDroneLogic)\<close>

text \<open>\<^verbatim>\<open>IndividualStratagem\<close> with its action; an absent optional field is \<open>None\<close>.\<close>

datatype ActionType = MOVE | ATTACK | HOLD

record Action =
  action_type :: ActionType
  target_id :: "string option"
  action_position :: "Vector option"

record IndividualStratagem =
  stratagem_name :: string
  justification :: string
  action :: Action

text \<open>
  \<^verbatim>\<open>updateDroneIntent(droneId, updates)\<close>: the roster is chosen by the id's prefix, and
  every drone with that id gets the fields of \<^verbatim>\<open>updates\<close>, here the function that
  writes them.
\<close>

definition updateDroneIntent :: "string \<Rightarrow> (Drone \<Rightarrow> Drone) \<Rightarrow> World \<Rightarrow> World" where
  "updateDroneIntent droneId updates w =
     (let updater = map (\<lambda>d. if drone_id d = droneId then updates d else d)
      in if prefix ''b-'' droneId then w\<lparr>blueDrones := updater (blueDrones w)\<rparr>
         else w\<lparr>redDrones := updater (redDrones w)\<rparr>)"

definition friendlySwarm :: "Drone \<Rightarrow> World \<Rightarrow> Drone list" where
  "friendlySwarm drone w = (if swarmId drone = blue then blueDrones w else redDrones w)"

definition enemySwarm :: "Drone \<Rightarrow> World \<Rightarrow> Drone list" where
  "enemySwarm drone w = (if swarmId drone = blue then redDrones w else blueDrones w)"

text \<open>The enemies offered to the oracle, and the ones an Attack decision may name.\<close>

definition activeEnemies :: "Drone \<Rightarrow> World \<Rightarrow> Drone list" where
  "activeEnemies drone w = filter (\<lambda>d. status d \<noteq> Disabled) (enemySwarm drone w)"

text \<open>
  \<^verbatim>\<open>runDroneLogic(drone)\<close> up to the \<^verbatim>\<open>await\<close>. \<open>drone\<close> is the function's argument: the
  object that \<^verbatim>\<open>thinkingLoop\<close> was started with, not the roster's current entry. \<open>None\<close>
  is the early \<^verbatim>\<open>return\<close>.
\<close>

definition runDroneLogic_start :: "Drone \<Rightarrow> World \<Rightarrow> World option" where
  "runDroneLogic_start drone w =
     (if simulationState w \<noteq> Running \<or> status drone = Disabled \<or> drone_id drone \<in> thinkingDrones w
      then None
      else Some (updateDroneIntent (drone_id drone) (\<lambda>d. d\<lparr>status := Assessing\<rparr>)
                  (w\<lparr>thinkingDrones := insert (drone_id drone) (thinkingDrones w)\<rparr>)))"

text \<open>What \<^verbatim>\<open>await getDroneAction(...)\<close> gives: a stratagem, \<^verbatim>\<open>null\<close>, or an exception.\<close>

datatype oracle_result = Answered "IndividualStratagem option" | Threw js_error

definition apply_stratagem :: "Drone \<Rightarrow> IndividualStratagem \<Rightarrow> World \<Rightarrow> World" where
  "apply_stratagem drone stratagem w =
     (case action_type (action stratagem) of
        MOVE \<Rightarrow>
          updateDroneIntent (drone_id drone)
            (\<lambda>d. d\<lparr>status := Moving,
                   targetPosition :=
                     (case action_position (action stratagem) of
                        Some p \<Rightarrow> p
                      | None \<Rightarrow> position drone),
                   targetId := None\<rparr>) w
      | ATTACK \<Rightarrow>
          (let targetId' = target_id (action stratagem);
               activeEnemiesNow = activeEnemies drone w
           in if truthy_id targetId' \<and> list_ex (\<lambda>e. drone_id e = the targetId') activeEnemiesNow
              then updateDroneIntent (drone_id drone)
                     (\<lambda>d. d\<lparr>status := Attacking, targetId := targetId'\<rparr>) w
              else updateDroneIntent (drone_id drone) (\<lambda>d. d\<lparr>status := Idle\<rparr>) w)
      | HOLD \<Rightarrow>
          updateDroneIntent (drone_id drone) (\<lambda>d. d\<lparr>status := Idle, targetId := None\<rparr>) w)"

text \<open>
  \<^verbatim>\<open>runDroneLogic(drone)\<close> from the \<^verbatim>\<open>await\<close> on, with the \<^verbatim>\<open>catch\<close> and the
  \<^verbatim>\<open>finally\<close>. The checks after the \<^verbatim>\<open>await\<close> read the roster's current entry
  (\<open>currentDroneState\<close>). The log lines are not modelled.
\<close>

definition runDroneLogic_resume :: "Drone \<Rightarrow> oracle_result \<Rightarrow> World \<Rightarrow> World" where
  "runDroneLogic_resume drone r w =
     (let currentDroneState = find (\<lambda>d. drone_id d = drone_id drone) (friendlySwarm drone w);
          live = (case currentDroneState of None \<Rightarrow> False | Some c \<Rightarrow> status c \<noteq> Disabled);
          w' = (if simulationState w \<noteq> Running \<or> \<not> live then w
                else case r of
                       Answered (Some stratagem) \<Rightarrow> apply_stratagem drone stratagem w
                     | Answered None \<Rightarrow>
                         updateDroneIntent (drone_id drone) (\<lambda>d. d\<lparr>status := Idle\<rparr>) w
                     | Threw e \<Rightarrow>
                         updateDroneIntent (drone_id drone) (\<lambda>d. d\<lparr>status := Idle\<rparr>) w)
      in w'\<lparr>thinkingDrones := thinkingDrones w' - {drone_id drone}\<rparr>)"

definition resetSimulation :: "World \<Rightarrow> World" where
  "resetSimulation w = initial_world"

text \<open>
  The states the program can be in: the initial one, and what the start, pause and
  reset controls, a tick of a running simulation and the two halves of a think cycle
  make of a state. A think cycle runs on any drone object here; the program passes the
  objects it captured when the simulation was started.
\<close>

inductive reachable :: "World \<Rightarrow> bool" where
  init: "reachable initial_world"
| control: "reachable w \<Longrightarrow> reachable (w\<lparr>simulationState := s\<rparr>)"
| reset: "reachable w \<Longrightarrow> reachable (resetSimulation w)"
| tick: "reachable w \<Longrightarrow> simulationState w = Running \<Longrightarrow> reachable (tick w)"
| think_start: "reachable w \<Longrightarrow> runDroneLogic_start drone w = Some w' \<Longrightarrow> reachable w'"
| think_resume: "reachable w \<Longrightarrow> reachable (runDroneLogic_resume drone r w)"

section \<open>Predicates of the statements\<close>

text \<open>Health within its bounds; the two rosters of a world as one list.\<close>

definition health_ok :: "Drone \<Rightarrow> bool" where
  "health_ok d = (0 \<le> health d \<and> health d \<le> 100)"

definition all_drones :: "World \<Rightarrow> Drone list" where
  "all_drones w = blueDrones w @ redDrones w"

text \<open>
  \<open>d'\<close> is the drone \<open>d\<close> at a later moment of a tick: the same drone, and when the health
  of \<open>d\<close> is not negative, neither is that of \<open>d'\<close>, which is not higher.
\<close>

definition worn :: "Drone \<Rightarrow> Drone \<Rightarrow> bool" where
  "worn d d' =
     (drone_id d' = drone_id d \<and> swarmId d' = swarmId d \<and>
      (0 \<le> health d \<longrightarrow> 0 \<le> health d' \<and> health d' \<le> health d))"

text \<open>
  The distance from \<open>p\<close> to \<open>q\<close> as the tick handler computes it, with the two
  differences it is computed from.
\<close>

definition delta_x :: "Vector \<Rightarrow> Vector \<Rightarrow> number" where
  "delta_x p q = num_sub (vec_x q) (vec_x p)"

definition delta_y :: "Vector \<Rightarrow> Vector \<Rightarrow> number" where
  "delta_y p q = num_sub (vec_y q) (vec_y p)"

definition measured_distance :: "Vector \<Rightarrow> Vector \<Rightarrow> number" where
  "measured_distance p q =
     Math_sqrt (num_add (num_mul (delta_x p q) (delta_x p q)) (num_mul (delta_y p q) (delta_y p q)))"

text \<open>A number is at most \<open>r\<close>; for \<^verbatim>\<open>NaN\<close> this is false.\<close>

definition at_most :: "number \<Rightarrow> real \<Rightarrow> bool" where
  "at_most a r = (case a of NaN \<Rightarrow> False | Infinity s \<Rightarrow> s | Finite x \<Rightarrow> x \<le> r)"

text \<open>The last character of a text that is not white space, if there is one, is no comma.\<close>

definition no_comma_before_end :: "string \<Rightarrow> bool" where
  "no_comma_before_end a =
     (case dropWhile is_space (rev a) of [] \<Rightarrow> True | c # _ \<Rightarrow> c \<noteq> CHR '','')"

section \<open>Example inputs\<close>

text \<open>A backend whose first call is rate limited and whose second call fails otherwise.\<close>

definition backend_429_then_500 :: "nat \<Rightarrow> backend_outcome" where
  "backend_429_then_500 n =
     (if n = 1 then Failed (JsError ''got status: 429 Too Many Requests'')
      else Failed (JsError ''got status: 500 Internal Server Error''))"

text \<open>A backend that is rate limited on every call; a random source without jitter.\<close>

definition always_429 :: "nat \<Rightarrow> backend_outcome" where
  "always_429 n = Failed (JsError ''got status: 429 Too Many Requests'')"

definition no_jitter :: "nat \<Rightarrow> number" where
  "no_jitter n = Finite (1 / 2)"

definition exhausted_error :: js_error where
  "exhausted_error = JsError ''Exceeded max retries (3) for Google AI API.''"

text \<open>
  The message of a 429 error that carries a \<^verbatim>\<open>RetryInfo\<close> detail with the delay \<^verbatim>\<open>27s\<close>;
  a backend that is rate limited twice (the first error with that message) and then
  answers; a random source that always returns 0.75.
\<close>

definition retry_info_message :: string where
  "retry_info_message =
     ''got status: 429 Too Many Requests. {'' @ quoted ''error'' @ '':{'' @
       quoted ''code'' @ '':429,'' @
       quoted ''status'' @ '':'' @ quoted ''RESOURCE_EXHAUSTED'' @ '','' @
       quoted ''details'' @ '':[{'' @
         quoted ''@type'' @ '':'' @ quoted ''type.googleapis.com/google.rpc.RetryInfo'' @ '','' @
         quoted ''retryDelay'' @ '':'' @ quoted ''27s'' @ ''}]}}''"

definition backend_429_twice :: "nat \<Rightarrow> backend_outcome" where
  "backend_429_twice n =
     (if n = 1 then Failed (JsError retry_info_message)
      else if n = 2 then Failed (JsError ''got status: 429 Too Many Requests'')
      else Responded (Some (''{'' @ quoted ''action'' @ '':{'' @ quoted ''type'' @ '':'' @ quoted ''HOLD'' @ ''}}'')))"

definition three_quarters :: "nat \<Rightarrow> number" where
  "three_quarters n = Finite (3 / 4)"

text \<open>
  Scenario 1 of the specification: an attacker at (100, 100) whose target stands at
  (100, 300).
\<close>

definition scenario_attacker :: Drone where
  "scenario_attacker =
     \<lparr>drone_id = ''b-drone-0'', swarmId = blue, position = \<lparr>vec_x = Finite 100, vec_y = Finite 100\<rparr>,
      status = Attacking, targetPosition = \<lparr>vec_x = Finite 100, vec_y = Finite 100\<rparr>, health = 100,
      targetId = Some ''r-drone-0''\<rparr>"

definition scenario_target :: Drone where
  "scenario_target =
     \<lparr>drone_id = ''r-drone-0'', swarmId = red, position = \<lparr>vec_x = Finite 100, vec_y = Finite 300\<rparr>,
      status = Idle, targetPosition = \<lparr>vec_x = Finite 100, vec_y = Finite 300\<rparr>, health = 100,
      targetId = None\<rparr>"


text \<open>
  The attacker of scenario 1 in the middle of a think cycle, and a stratagem that names
  an enemy that does not exist.
\<close>

definition assessing_world :: World where
  "assessing_world =
     \<lparr>blueDrones = [scenario_attacker\<lparr>status := Assessing\<rparr>], redDrones = [scenario_target],
      simulationState = Running, thinkingDrones = {''b-drone-0''}\<rparr>"

definition attack_missing :: IndividualStratagem where
  "attack_missing =
     \<lparr>stratagem_name = ''Focused Fire'', justification = ''Strike the weak point'',
      action = \<lparr>action_type = ATTACK, target_id = Some ''r-drone-7'', action_position = None\<rparr>\<rparr>"

text \<open>
  The initial rosters by name. \<open>blue0\<close> and \<open>red0\<close> are the first drones of the two
  swarms as \<open>createInitialSwarm\<close> builds them: the objects that the think loops of
  \<^verbatim>\<open>b-drone-0\<close> and \<^verbatim>\<open>r-drone-0\<close> hold from the start of the simulation on.
  \<open>world_with b r t\<close> is a running world whose rosters are the initial ones but for these
  two drones.
\<close>

definition mk :: "string \<Rightarrow> SwarmId \<Rightarrow> real \<Rightarrow> real \<Rightarrow> Drone" where
  "mk i s px py = \<lparr>drone_id = i, swarmId = s, position = \<lparr>vec_x = Finite px, vec_y = Finite py\<rparr>,
      status = Idle, targetPosition = \<lparr>vec_x = Finite px, vec_y = Finite py\<rparr>, health = 100, targetId = None\<rparr>"

definition blue0 :: Drone where "blue0 = mk ''b-drone-0'' blue 250 500"

definition red0 :: Drone where "red0 = mk ''r-drone-0'' red 250 100"

definition blue_others :: "Drone list" where
  "blue_others = [mk ''b-drone-1'' blue 310 500, mk ''b-drone-2'' blue 370 500,
                  mk ''b-drone-3'' blue 430 500, mk ''b-drone-4'' blue 490 500]"

definition red_others :: "Drone list" where
  "red_others = [mk ''r-drone-1'' red 310 100, mk ''r-drone-2'' red 370 100,
                 mk ''r-drone-3'' red 430 100, mk ''r-drone-4'' red 490 100]"

definition world_with :: "Drone \<Rightarrow> Drone \<Rightarrow> string set \<Rightarrow> World" where
  "world_with b r t =
     \<lparr>blueDrones = b # blue_others, redDrones = r # red_others,
      simulationState = Running, thinkingDrones = t\<rparr>"

text \<open>Stratagems: a move to (250, 400), a move without a position, an attack on \<^verbatim>\<open>r-drone-0\<close>.\<close>

definition move_up :: IndividualStratagem where
  "move_up =
     \<lparr>stratagem_name = ''Advance'', justification = ''Close the distance'',
      action = \<lparr>action_type = MOVE, target_id = None,
                action_position = Some \<lparr>vec_x = Finite 250, vec_y = Finite 400\<rparr>\<rparr>\<rparr>"

definition move_nowhere :: IndividualStratagem where
  "move_nowhere =
     \<lparr>stratagem_name = ''Hold the Line'', justification = ''Wait for the enemy'',
      action = \<lparr>action_type = MOVE, target_id = None, action_position = None\<rparr>\<rparr>"

definition attack_red0 :: IndividualStratagem where
  "attack_red0 =
     \<lparr>stratagem_name = ''Focused Fire'', justification = ''Strike the nearest enemy'',
      action = \<lparr>action_type = ATTACK, target_id = Some ''r-drone-0'', action_position = None\<rparr>\<rparr>"

text \<open>
  States of a run in which \<^verbatim>\<open>b-drone-0\<close> attacks \<^verbatim>\<open>r-drone-0\<close>: on its way down at height
  \<open>p\<close>; in range, with the target's health at \<open>h\<close>; after the last blow; and the three
  states that follow when the think cycles of the two drones go on.
\<close>

definition approach :: "real \<Rightarrow> World" where
  "approach p = world_with
     (blue0\<lparr>status := Attacking, targetId := Some ''r-drone-0'', position := \<lparr>vec_x = Finite 250, vec_y = Finite p\<rparr>\<rparr>)
     red0 {}"

definition siege :: "int \<Rightarrow> World" where
  "siege h = world_with
     (blue0\<lparr>status := Attacking, targetId := Some ''r-drone-0'', position := \<lparr>vec_x = Finite 250, vec_y = Finite 175\<rparr>\<rparr>)
     (red0\<lparr>health := h\<rparr>) {}"

definition killed_world :: World where
  "killed_world = world_with
     (blue0\<lparr>status := Idle, targetId := None, position := \<lparr>vec_x = Finite 250, vec_y = Finite 175\<rparr>\<rparr>)
     (red0\<lparr>health := 0, status := Disabled\<rparr>) {}"

definition revived_world :: World where
  "revived_world = world_with
     (blue0\<lparr>status := Idle, targetId := None, position := \<lparr>vec_x = Finite 250, vec_y = Finite 175\<rparr>\<rparr>)
     (red0\<lparr>health := 0, status := Assessing\<rparr>) {''r-drone-0''}"

definition offered_world :: World where
  "offered_world = world_with
     (blue0\<lparr>status := Assessing, targetId := None, position := \<lparr>vec_x = Finite 250, vec_y = Finite 175\<rparr>\<rparr>)
     (red0\<lparr>health := 0, status := Assessing\<rparr>) {''b-drone-0'', ''r-drone-0''}"

definition accepted_world :: World where
  "accepted_world = world_with
     (blue0\<lparr>status := Attacking, targetId := Some ''r-drone-0'', position := \<lparr>vec_x = Finite 250, vec_y = Finite 175\<rparr>\<rparr>)
     (red0\<lparr>health := 0, status := Assessing\<rparr>) {''r-drone-0''}"

text \<open>
  \<^verbatim>\<open>b-drone-0\<close> after a move decision and two ticks, at the start of its next think cycle.
\<close>

definition stale_move_world :: World where
  "stale_move_world = world_with
     (blue0\<lparr>status := Assessing, targetPosition := \<lparr>vec_x = Finite 250, vec_y = Finite 400\<rparr>,
            position := \<lparr>vec_x = Finite 250, vec_y = Finite 498\<rparr>\<rparr>)
     red0 {''b-drone-0''}"







text \<open>
  Scenario 4 of the specification, up to the brace that closes the action:
  \<open>hold_head @ ''}}''\<close> is the well-formed document, \<open>hold_head @ '',}}''\<close> the one with a
  trailing comma. \<open>backquote_head\<close> is the same with a stratagem name of three backquotes.
\<close>

definition hold_head :: string where
  "hold_head =
     ''{'' @ quoted ''stratagem_name'' @ '':'' @ quoted ''X'' @ '','' @
       quoted ''justification'' @ '':'' @ quoted ''Y'' @ '','' @
       quoted ''action'' @ '':{'' @ quoted ''type'' @ '':'' @ quoted ''HOLD''"

definition backquote_head :: string where
  "backquote_head =
     ''{'' @ quoted ''stratagem_name'' @ '':'' @ quoted ''```'' @ '','' @
       quoted ''justification'' @ '':'' @ quoted ''Y'' @ '','' @
       quoted ''action'' @ '':{'' @ quoted ''type'' @ '':'' @ quoted ''HOLD''"

section \<open>Facts about numbers\<close>

lemma round_half_even_int [simp]: "round_half_even (of_int n) = n"
  by (simp add: round_half_even_def)


lemma round_half_even_bounds:
  "\<lfloor>q\<rfloor> \<le> round_half_even q" "round_half_even q \<le> \<lfloor>q\<rfloor> + 1"
  by (simp_all add: round_half_even_def Let_def)

lemma round_half_even_ge:
  assumes "of_int n \<le> q"
  shows "n \<le> round_half_even q"
proof -
  from assms have "n \<le> \<lfloor>q\<rfloor>" by (simp add: le_floor_iff)
  with round_half_even_bounds(1)[of q] show ?thesis by linarith
qed

lemma round_half_even_le:
  assumes "q \<le> of_int n"
  shows "round_half_even q \<le> n"
proof (cases "q = of_int n")
  case True
  then show ?thesis by simp
next
  case False
  with assms have "q < of_int n" by simp
  then have "\<lfloor>q\<rfloor> < n" by (simp add: floor_less_iff)
  with round_half_even_bounds(2)[of q] show ?thesis by simp
qed

lemma round_half_even_minus: "round_half_even (- q) = - round_half_even q"
proof (cases "q = of_int \<lfloor>q\<rfloor>")
  case True
  have "round_half_even (of_int (- \<lfloor>q\<rfloor>)) = - round_half_even (of_int \<lfloor>q\<rfloor>)"
    unfolding round_half_even_int ..
  then have "round_half_even (- of_int \<lfloor>q\<rfloor>) = - round_half_even (of_int \<lfloor>q\<rfloor>)"
    by simp
  with True show ?thesis by metis
next
  case False
  then have lt: "of_int \<lfloor>q\<rfloor> < q" using of_int_floor_le[of q] by linarith
  have "q < of_int \<lfloor>q\<rfloor> + 1" by linarith
  with lt have "of_int (- \<lfloor>q\<rfloor> - 1) \<le> - q" "- q < of_int (- \<lfloor>q\<rfloor> - 1) + 1"
    unfolding of_int_diff of_int_minus of_int_1 by linarith+
  then have "\<lfloor>- q\<rfloor> = - \<lfloor>q\<rfloor> - 1"
    by (rule floor_unique)
  then show ?thesis
    unfolding round_half_even_def Let_def by (auto; linarith?)
qed

lemma floor_log2_bounds:
  assumes "x \<noteq> 0"
  shows "2 powi \<lfloor>log 2 \<bar>x\<bar>\<rfloor> \<le> \<bar>x\<bar>" "\<bar>x\<bar> < 2 powi (\<lfloor>log 2 \<bar>x\<bar>\<rfloor> + 1)"
proof -
  have pos: "\<bar>x\<bar> > 0" using assms by simp
  have "2 powr \<lfloor>log 2 \<bar>x\<bar>\<rfloor> \<le> \<bar>x\<bar> \<and> \<bar>x\<bar> < 2 powr (\<lfloor>log 2 \<bar>x\<bar>\<rfloor> + 1)"
    using floor_log_eq_powr_iff[OF pos, of 2 "\<lfloor>log 2 \<bar>x\<bar>\<rfloor>"] by simp
  moreover have "2 powr (of_int j) = (2::real) powi j" for j by (simp add: powr_real_of_int')
  from this[of "\<lfloor>log 2 \<bar>x\<bar>\<rfloor>"] this[of "\<lfloor>log 2 \<bar>x\<bar>\<rfloor> + 1"]
  have "2 powr \<lfloor>log 2 \<bar>x\<bar>\<rfloor> = (2::real) powi \<lfloor>log 2 \<bar>x\<bar>\<rfloor>"
       "2 powr (\<lfloor>log 2 \<bar>x\<bar>\<rfloor> + 1) = (2::real) powi (\<lfloor>log 2 \<bar>x\<bar>\<rfloor> + 1)"
    by simp_all
  ultimately show "2 powi \<lfloor>log 2 \<bar>x\<bar>\<rfloor> \<le> \<bar>x\<bar>" "\<bar>x\<bar> < 2 powi (\<lfloor>log 2 \<bar>x\<bar>\<rfloor> + 1)"
    by simp_all
qed


lemma two_powi_less_cancel: "(2::real) powi a < 2 powi b \<Longrightarrow> a < b"
  using power_int_increasing[of b a "2::real"] by (cases "a < b") simp_all

lemma number_of_exact:
  assumes m: "\<bar>m\<bar> < 2 ^ 53" and e: "- 1074 \<le> e" "e \<le> 971"
  shows "number_of (of_int m * 2 powi e) = Finite (of_int m * 2 powi e)"
proof (cases "m = 0")
  case True
  then show ?thesis by (simp add: number_of_def grid_value_def)
next
  case False
  let ?x = "real_of_int m * 2 powi e"
  let ?k = "\<lfloor>log 2 \<bar>?x\<bar>\<rfloor>"
  let ?u = "ulp_exponent ?x"
  have x0: "?x \<noteq> 0" using False by simp
  have absx: "\<bar>?x\<bar> = real_of_int \<bar>m\<bar> * 2 powi e"
    by (simp add: abs_mult)
  have "real_of_int \<bar>m\<bar> < 2 ^ 53" using m by (metis of_int_less_iff of_int_numeral of_int_power)
  then have "\<bar>?x\<bar> < 2 ^ 53 * 2 powi e"
    unfolding absx by (simp add: mult_strict_right_mono)
  also have "\<dots> = 2 powi (53 + e)"
    by (simp add: power_int_add)
  finally have up: "\<bar>?x\<bar> < 2 powi (53 + e)" .
  from floor_log2_bounds(1)[OF x0] up have "(2::real) powi ?k < 2 powi (53 + e)" by linarith
  then have "?k < 53 + e" by (rule two_powi_less_cancel)
  define u where "u = ulp_exponent ?x"
  from \<open>?k < 53 + e\<close> e have ue: "u \<le> e" by (simp add: u_def ulp_exponent_def)
  then obtain d where d: "e = u + int d"
    by (metis add.commute le_iff_add nonneg_int_cases zle_iff_zadd)
  have pw: "(2::real) powi e = 2 powi u * 2 ^ d"
    unfolding d by (simp add: power_int_add)
  have q: "?x / 2 powi u = of_int (m * 2 ^ d)"
    unfolding pw by simp
  have "of_int (round_half_even (?x / 2 powi u)) * 2 powi u = ?x"
    unfolding q round_half_even_int unfolding pw by simp
  then have v: "of_int (round_half_even (?x / 2 powi ?u)) * 2 powi ?u = ?x"
    unfolding u_def .
  have "(2::real) powi e \<le> 2 powi 971"
    using e(2) by (rule power_int_increasing) simp
  then have "2 ^ 53 * (2::real) powi e \<le> 2 ^ 53 * 2 powi 971"
    by (rule mult_left_mono) simp
  also have "\<dots> = 2 ^ 1024" by simp
  finally have "\<bar>?x\<bar> < 2 ^ 1024" using \<open>\<bar>?x\<bar> < 2 ^ 53 * 2 powi e\<close> by linarith
  with x0 v show ?thesis
    unfolding number_of_def grid_value_def by simp
qed

lemma number_of_int:
  assumes "\<bar>n\<bar> \<le> 2 ^ 53"
  shows "number_of (of_int n) = Finite (of_int n)"
proof (cases "\<bar>n\<bar> < 2 ^ 53")
  case True
  then show ?thesis using number_of_exact[of n 0] by simp
next
  case False
  with assms have "n = 2 ^ 53 \<or> n = - (2 ^ 53)" by linarith
  then show ?thesis
    using number_of_exact[of "2 ^ 52" 1] number_of_exact[of "- (2 ^ 52)" 1] by auto
qed

lemma grid_value_minus: "grid_value (- x) = - grid_value x"
  by (simp add: grid_value_def ulp_exponent_def round_half_even_minus)

lemma grid_value_eq:
  "x \<noteq> 0 \<Longrightarrow>
   grid_value x = of_int (round_half_even (x / 2 powi ulp_exponent x)) * 2 powi ulp_exponent x"
  by (simp add: grid_value_def)

lemma grid_value_ge:
  assumes "of_int n * 2 powi ulp_exponent x \<le> x"
  shows "of_int n * 2 powi ulp_exponent x \<le> grid_value x"
proof -
  have "of_int n \<le> x / 2 powi ulp_exponent x"
    using assms by (simp add: pos_le_divide_eq)
  then have "n \<le> round_half_even (x / 2 powi ulp_exponent x)"
    by (rule round_half_even_ge)
  then have "of_int n * 2 powi ulp_exponent x
      \<le> of_int (round_half_even (x / 2 powi ulp_exponent x)) * (2::real) powi ulp_exponent x"
    by (simp add: mult_right_mono)
  with assms show ?thesis
    by (cases "x = 0") (simp_all add: grid_value_def)
qed

lemma grid_value_le:
  assumes "x \<le> of_int n * 2 powi ulp_exponent x"
  shows "grid_value x \<le> of_int n * 2 powi ulp_exponent x"
proof -
  have "x / 2 powi ulp_exponent x \<le> of_int n"
    using assms by (simp add: pos_divide_le_eq)
  then have "round_half_even (x / 2 powi ulp_exponent x) \<le> n"
    by (rule round_half_even_le)
  then have "of_int (round_half_even (x / 2 powi ulp_exponent x)) * (2::real) powi ulp_exponent x
      \<le> of_int n * 2 powi ulp_exponent x"
    by (simp add: mult_right_mono)
  with assms show ?thesis
    by (cases "x = 0") (simp_all add: grid_value_def)
qed

lemma on_grid:
  assumes "u \<le> e"
  shows "\<exists>n. of_int m * (2::real) powi e = of_int n * 2 powi u"
proof -
  from assms obtain d where d: "e = u + int d"
    by (metis add.commute le_iff_add nonneg_int_cases zle_iff_zadd)
  have "of_int m * (2::real) powi e = of_int (m * 2 ^ d) * 2 powi u"
    unfolding d by (simp add: power_int_add)
  then show ?thesis ..
qed

lemma representable_minus:
  assumes "representable x"
  shows "representable (- x)"
proof -
  from assms obtain m e where "\<bar>m\<bar> < 2 ^ 53" "- 1074 \<le> e" "e \<le> 971" "x = of_int m * 2 powi e"
    unfolding representable_def by blast
  then have "\<bar>- m\<bar> < 2 ^ 53 \<and> - 1074 \<le> e \<and> e \<le> 971 \<and> - x = of_int (- m) * 2 powi e"
    by simp
  then show ?thesis unfolding representable_def by blast
qed

lemma grid_value_pos_ge:
  assumes a: "representable a" and "0 < a" "a \<le> x"
  shows "a \<le> grid_value x"
proof -
  from a obtain m e where m: "\<bar>m\<bar> < 2 ^ 53" and e: "- 1074 \<le> e" and am: "a = of_int m * 2 powi e"
    unfolding representable_def by blast
  have x0: "x \<noteq> 0" using assms by simp
  have xabs: "\<bar>x\<bar> = x" using assms by simp
  let ?k = "\<lfloor>log 2 \<bar>x\<bar>\<rfloor>"
  show ?thesis
  proof (cases "ulp_exponent x \<le> e")
    case True
    then obtain n where "of_int m * (2::real) powi e = of_int n * 2 powi ulp_exponent x"
      using on_grid by blast
    with grid_value_ge[of n x] am assms(3) show ?thesis by simp
  next
    case False
    with e have u: "ulp_exponent x = ?k - 52" and k: "53 + e \<le> ?k"
      by (simp_all add: ulp_exponent_def)
    have "real_of_int \<bar>m\<bar> < 2 ^ 53" using m by (metis of_int_less_iff of_int_numeral of_int_power)
    moreover have "a \<le> real_of_int \<bar>m\<bar> * 2 powi e"
      unfolding am by (simp add: mult_right_mono)
    moreover have "(0::real) < 2 powi e" by simp
    ultimately have "a < 2 ^ 53 * 2 powi e"
      using mult_strict_right_mono[of "real_of_int \<bar>m\<bar>" "2 ^ 53" "2 powi e"] by linarith
    also have "\<dots> = 2 powi (53 + e)" by (simp add: power_int_add)
    also have "\<dots> \<le> 2 powi ?k" using k by (rule power_int_increasing) simp
    finally have lt: "a < 2 powi ?k" .
    have "(2::real) powi ?k = of_int (2 ^ 52) * 2 powi ulp_exponent x"
      unfolding u by (simp add: power_int_diff)
    moreover have "2 powi ?k \<le> x" using floor_log2_bounds(1)[OF x0] xabs by simp
    ultimately have "2 powi ?k \<le> grid_value x"
      using grid_value_ge[of "2 ^ 52" x] by simp
    with lt show ?thesis by simp
  qed
qed

lemma grid_value_pos_le:
  assumes b: "representable b" and "0 < x" "x \<le> b"
  shows "grid_value x \<le> b"
proof -
  from b obtain m e where m: "\<bar>m\<bar> < 2 ^ 53" and e: "- 1074 \<le> e" and bm: "b = of_int m * 2 powi e"
    unfolding representable_def by blast
  have x0: "x \<noteq> 0" using assms by simp
  have xabs: "\<bar>x\<bar> = x" using assms by simp
  let ?k = "\<lfloor>log 2 \<bar>x\<bar>\<rfloor>"
  have "ulp_exponent x \<le> e"
  proof (rule ccontr)
    assume "\<not> ulp_exponent x \<le> e"
    with e have k: "53 + e \<le> ?k"
      by (simp_all add: ulp_exponent_def)
    have "real_of_int \<bar>m\<bar> < 2 ^ 53" using m by (metis of_int_less_iff of_int_numeral of_int_power)
    moreover have "b \<le> real_of_int \<bar>m\<bar> * 2 powi e"
      unfolding bm by (simp add: mult_right_mono)
    moreover have "(0::real) < 2 powi e" by simp
    ultimately have "b < 2 ^ 53 * 2 powi e"
      using mult_strict_right_mono[of "real_of_int \<bar>m\<bar>" "2 ^ 53" "2 powi e"] by linarith
    also have "\<dots> = 2 powi (53 + e)" by (simp add: power_int_add)
    also have "\<dots> \<le> 2 powi ?k" using k by (rule power_int_increasing) simp
    also have "\<dots> \<le> x" using floor_log2_bounds(1)[OF x0] xabs by simp
    finally show False using assms(3) by simp
  qed
  then obtain n where "of_int m * (2::real) powi e = of_int n * 2 powi ulp_exponent x"
    using on_grid by blast
  with grid_value_le[of x n] bm assms(3) show ?thesis by simp
qed

lemma grid_value_nonneg: "0 \<le> x \<Longrightarrow> 0 \<le> grid_value x"
  using grid_value_ge[of 0 x] by simp

lemma grid_value_lower:
  assumes "representable a" "a \<le> x"
  shows "a \<le> grid_value x"
proof -
  consider "0 < a" | "a \<le> 0" "0 \<le> x" | "x < 0" by linarith
  then show ?thesis
  proof cases
    case 1
    with assms show ?thesis by (simp add: grid_value_pos_ge)
  next
    case 2
    with grid_value_nonneg[of x] show ?thesis by simp
  next
    case 3
    with assms have "grid_value (- x) \<le> - a"
      by (intro grid_value_pos_le representable_minus) simp_all
    then show ?thesis by (simp add: grid_value_minus)
  qed
qed

lemma grid_value_upper:
  assumes "representable b" "x \<le> b"
  shows "grid_value x \<le> b"
  using grid_value_lower[of "- b" "- x"] assms
  by (simp add: grid_value_minus representable_minus)

lemma representable_less: "representable b \<Longrightarrow> \<bar>b\<bar> < 2 ^ 1024"
proof -
  assume "representable b"
  then obtain m e where m: "\<bar>m\<bar> < 2 ^ 53" and e: "e \<le> 971" and bm: "b = of_int m * 2 powi e"
    unfolding representable_def by blast
  have "real_of_int \<bar>m\<bar> < 2 ^ 53" using m by (metis of_int_less_iff of_int_numeral of_int_power)
  moreover have "\<bar>b\<bar> = real_of_int \<bar>m\<bar> * 2 powi e"
    unfolding bm by (simp add: abs_mult)
  ultimately have "\<bar>b\<bar> < 2 ^ 53 * 2 powi e"
    by (simp add: mult_strict_right_mono)
  moreover have "(2::real) powi e \<le> 2 powi 971"
    using e by (rule power_int_increasing) simp
  then have "2 ^ 53 * (2::real) powi e \<le> 2 ^ 53 * 2 powi 971"
    by (rule mult_left_mono) simp
  moreover have "2 ^ 53 * (2::real) powi 971 = 2 ^ 1024" by simp
  ultimately show ?thesis by linarith
qed

lemma number_of_between:
  assumes "representable a" "representable b" "a \<le> x" "x \<le> b"
  shows "number_of x = Finite (grid_value x) \<and> a \<le> grid_value x \<and> grid_value x \<le> b"
proof -
  have lo: "a \<le> grid_value x" using assms(1,3) by (rule grid_value_lower)
  have hi: "grid_value x \<le> b" using assms(2,4) by (rule grid_value_upper)
  from representable_less[OF assms(1)] representable_less[OF assms(2)] lo hi
  have "\<bar>grid_value x\<bar> < 2 ^ 1024" by linarith
  with lo hi show ?thesis by (simp add: number_of_def)
qed

lemma representable_Ints:
  assumes "x \<in> \<int>" "\<bar>x\<bar> \<le> 2 ^ 53"
  shows "representable x"
proof -
  from assms(1) obtain n where n: "x = of_int n" by (rule Ints_cases)
  with assms(2) have le: "\<bar>n\<bar> \<le> 2 ^ 53"
    by (metis of_int_abs of_int_le_iff of_int_numeral of_int_power)
  show ?thesis
  proof (cases "\<bar>n\<bar> < 2 ^ 53")
    case True
    then have "\<bar>n\<bar> < 2 ^ 53 \<and> - 1074 \<le> (0::int) \<and> (0::int) \<le> 971 \<and> x = of_int n * 2 powi 0"
      using n by simp
    then show ?thesis unfolding representable_def by blast
  next
    case False
    with le have "n = 2 ^ 53 \<or> n = - (2 ^ 53)" by linarith
    then have "\<exists>m. \<bar>m\<bar> < 2 ^ 53 \<and> - 1074 \<le> (1::int) \<and> (1::int) \<le> 971 \<and> x = of_int m * 2 powi 1"
    proof
      assume "n = 2 ^ 53"
      with n have "\<bar>2 ^ 52 :: int\<bar> < 2 ^ 53 \<and> - 1074 \<le> (1::int) \<and> (1::int) \<le> 971 \<and> x = of_int (2 ^ 52) * 2 powi 1"
        by simp
      then show ?thesis ..
    next
      assume "n = - (2 ^ 53)"
      with n have "\<bar>- (2 ^ 52) :: int\<bar> < 2 ^ 53 \<and> - 1074 \<le> (1::int) \<and> (1::int) \<le> 971 \<and> x = of_int (- (2 ^ 52)) * 2 powi 1"
        by simp
      then show ?thesis ..
    qed
    then show ?thesis unfolding representable_def by blast
  qed
qed

lemma number_of_representable:
  assumes "representable x"
  shows "number_of x = Finite x"
proof -
  from assms obtain m e where "\<bar>m\<bar> < 2 ^ 53" "- 1074 \<le> e" "e \<le> 971" "x = of_int m * 2 powi e"
    unfolding representable_def by blast
  then show ?thesis by (simp add: number_of_exact)
qed

lemma number_of_Ints:
  "x \<in> \<int> \<Longrightarrow> \<bar>x\<bar> \<le> 2 ^ 53 \<Longrightarrow> number_of x = Finite x"
  by (rule number_of_representable) (rule representable_Ints)


text \<open>Evaluation on whole numbers.\<close>

lemma num_sub_Finite: "num_sub (Finite a) (Finite b) = number_of (a - b)"
  by (simp add: num_sub_def)

lemma number_of_square:
  assumes "x \<in> \<int>" "\<bar>x\<bar> \<le> 2 ^ 26"
  shows "number_of (x * x) = Finite (x * x)"
proof -
  have "\<bar>x\<bar> * \<bar>x\<bar> \<le> 2 ^ 26 * 2 ^ 26"
    using assms(2) by (intro mult_mono) simp_all
  then have "\<bar>x * x\<bar> \<le> 2 ^ 53" by (simp add: abs_mult)
  with assms(1) show ?thesis by (simp add: number_of_Ints)
qed

lemma number_of_dyadic:
  assumes "x * 2 ^ k \<in> \<int>" "\<bar>x * 2 ^ k\<bar> < 2 ^ 53" "k \<le> 1074"
  shows "number_of x = Finite x"
proof -
  from assms(1) obtain n where n: "x * 2 ^ k = of_int n" by (rule Ints_cases)
  with assms(2) have "\<bar>n\<bar> < 2 ^ 53"
    by (metis of_int_abs of_int_less_iff of_int_numeral of_int_power)
  moreover have "x = of_int n * 2 powi (- int k)"
    using n by (simp add: power_int_minus field_simps)
  ultimately show ?thesis
    using number_of_exact[of n "- int k"] assms(3) by simp
qed

lemma number_of_halves:
  "x * 2 \<in> \<int> \<Longrightarrow> \<bar>x * 2\<bar> < 2 ^ 53 \<Longrightarrow> number_of x = Finite x"
  using number_of_dyadic[of x 1] by simp

lemmas num_eval = num_sub_Finite num_greater_def number_of_Ints number_of_square

section \<open>Event log: properties\<close>

lemma length_slice_from_neg:
  "k > 0 \<Longrightarrow> length (slice_from (- k) xs) = min (length xs) (nat k)"
  by (auto simp: slice_from_def)

lemma slice_from_neg_drop:
  "slice_from (- 100) xs = drop (length xs - 100) xs"
proof -
  have "nat (max (int (length xs) - 100) 0) = length xs - 100"
    by arith
  then show ?thesis
    by (simp add: slice_from_def)
qed

lemma length_addLog:
  "length (addLog i t m ty a prev) = min (length prev) 100 + 1"
  by (simp add: addLog_def length_slice_from_neg)

lemma addLog_newest_last:
  "last (addLog i t m ty a prev) =
     \<lparr>entry_id = i, timestamp = t, entry_type = ty, message = m, author = a\<rparr>"
  by (simp add: addLog_def)

lemma addLog_drops_oldest:
  "butlast (addLog i t m ty a prev) = drop (length prev - 100) prev"
  by (simp add: addLog_def slice_from_neg_drop)

text \<open>
  Claim C5 on the code: appending to a log that already holds 100 entries leaves 101
  entries, since the slice keeps 100 of the old entries before the new one is added.
\<close>

theorem addLog_exceeds_capacity:
  "length (addLog ''log-1'' ''12:00:00'' ''tick'' Info None
     (replicate 100 \<lparr>entry_id = ''log-0'', timestamp = ''11:59:59'', entry_type = Info,
        message = ''old'', author = None\<rparr>)) = 101"
  by (simp add: length_addLog)

section \<open>Oracle client: the retry loop\<close>

declare attempt_loop.simps [simp del]

lemma attempt_loop_done:
  "MAX_RETRIES < attempt \<Longrightarrow>
   attempt_loop parse backend random attempt run =
     run\<lparr>outcome := Inl (JsError ''Exceeded max retries (3) for Google AI API.'')\<rparr>"
  by (subst attempt_loop.simps) simp

lemma attempt_loop_return:
  "attempt \<le> MAX_RETRIES \<Longrightarrow> attempt_body parse (backend attempt) = Inr v \<Longrightarrow>
   attempt_loop parse backend random attempt run = run\<lparr>outcome := Inr v, calls := calls run + 1\<rparr>"
  by (subst attempt_loop.simps) simp

lemma attempt_loop_throw:
  "attempt \<le> MAX_RETRIES \<Longrightarrow> attempt_body parse (backend attempt) = Inl e \<Longrightarrow>
   \<not> (isRateLimitError e \<and> attempt < MAX_RETRIES) \<Longrightarrow>
   attempt_loop parse backend random attempt run = run\<lparr>outcome := Inl e, calls := calls run + 1\<rparr>"
  by (subst attempt_loop.simps) auto

lemma attempt_loop_retry:
  "attempt < MAX_RETRIES \<Longrightarrow> attempt_body parse (backend attempt) = Inl e \<Longrightarrow>
   isRateLimitError e \<Longrightarrow>
   attempt_loop parse backend random attempt run =
     attempt_loop parse backend random (attempt + 1)
       (run\<lparr>calls := calls run + 1,
            waits := waits run @ [finalWaitMs parse attempt e (random attempt)],
            notices := notices run @ [(finalWaitMs parse attempt e (random attempt), attempt)]\<rparr>)"
  by (subst attempt_loop.simps) (simp add: Let_def)

lemma attempt_loop_calls:
  "calls (attempt_loop parse backend random attempt run) \<le> calls run + (MAX_RETRIES + 1 - attempt)"
proof (induction parse backend random attempt run rule: attempt_loop.induct)
  case (1 parse backend random attempt run)
  show ?case
  proof (cases "attempt \<le> MAX_RETRIES")
    case False
    then show ?thesis by (simp add: attempt_loop_done)
  next
    case le: True
    show ?thesis
    proof (cases "attempt_body parse (backend attempt)")
      case (Inr v)
      with le show ?thesis by (simp add: attempt_loop_return)
    next
      case (Inl e)
      show ?thesis
      proof (cases "isRateLimitError e \<and> attempt < MAX_RETRIES")
        case False
        with le Inl show ?thesis by (simp add: attempt_loop_throw)
      next
        case True
        let ?run' = "run\<lparr>calls := calls run + 1,
            waits := waits run @ [finalWaitMs parse attempt e (random attempt)],
            notices := notices run @ [(finalWaitMs parse attempt e (random attempt), attempt)]\<rparr>"
        from "1.IH"[OF le Inl True refl]
        have "calls (attempt_loop parse backend random (attempt + 1) ?run')
                \<le> (calls run + 1) + (MAX_RETRIES + 1 - (attempt + 1))"
          by simp
        also have "\<dots> = calls run + (MAX_RETRIES + 1 - attempt)"
          using True by arith
        finally show ?thesis
          using Inl True by (simp only: attempt_loop_retry)
      qed
    qed
  qed
qed

lemma rate_limited_iff:
  "rate_limited parse out \<longleftrightarrow> (\<exists>e. attempt_body parse out = Inl e \<and> isRateLimitError e)"
  by (auto simp: rate_limited_def split: sum.splits)

lemma attempt_loop_stop:
  assumes "attempt \<le> MAX_RETRIES"
    and "\<not> (rate_limited parse (backend attempt) \<and> attempt < MAX_RETRIES)"
  shows "attempt_loop parse backend random attempt run =
           run\<lparr>outcome := attempt_body parse (backend attempt), calls := calls run + 1\<rparr>"
proof (cases "attempt_body parse (backend attempt)")
  case (Inl e)
  with assms show ?thesis
    by (simp add: attempt_loop_throw rate_limited_iff)
next
  case (Inr v)
  with assms show ?thesis
    by (simp add: attempt_loop_return)
qed

lemma getGoogleAIAction_cases:
  fixes parse backend random
  defines "run \<equiv> getGoogleAIAction True parse backend random"
  obtains
    (first) "\<not> rate_limited parse (backend 1)"
      "run = \<lparr>outcome = attempt_body parse (backend 1), calls = 1, waits = [], notices = []\<rparr>"
  | (second) e1 where "attempt_body parse (backend 1) = Inl e1" "isRateLimitError e1"
      "\<not> rate_limited parse (backend 2)"
      "run = \<lparr>outcome = attempt_body parse (backend 2), calls = 2,
              waits = [finalWaitMs parse 1 e1 (random 1)],
              notices = [(finalWaitMs parse 1 e1 (random 1), 1)]\<rparr>"
  | (third) e1 e2 where "attempt_body parse (backend 1) = Inl e1" "isRateLimitError e1"
      "attempt_body parse (backend 2) = Inl e2" "isRateLimitError e2"
      "run = \<lparr>outcome = attempt_body parse (backend 3), calls = 3,
              waits = [finalWaitMs parse 1 e1 (random 1), finalWaitMs parse 2 e2 (random 2)],
              notices = [(finalWaitMs parse 1 e1 (random 1), 1),
                         (finalWaitMs parse 2 e2 (random 2), 2)]\<rparr>"
proof (cases "rate_limited parse (backend 1)")
  case False
  then have "run = \<lparr>outcome = attempt_body parse (backend 1), calls = 1, waits = [], notices = []\<rparr>"
    by (simp add: run_def getGoogleAIAction_def attempt_loop_stop MAX_RETRIES_def)
  with False show ?thesis by (rule first)
next
  case True
  then obtain e1 where e1: "attempt_body parse (backend 1) = Inl e1" "isRateLimitError e1"
    by (auto simp: rate_limited_iff)
  have step1: "run = attempt_loop parse backend random 2
      \<lparr>outcome = Inl NonError, calls = 1, waits = [finalWaitMs parse 1 e1 (random 1)],
       notices = [(finalWaitMs parse 1 e1 (random 1), 1)]\<rparr>"
    using e1 by (simp add: run_def getGoogleAIAction_def attempt_loop_retry MAX_RETRIES_def numeral_2_eq_2)
  show ?thesis
  proof (cases "rate_limited parse (backend 2)")
    case False
    then have "run = \<lparr>outcome = attempt_body parse (backend 2), calls = 2,
              waits = [finalWaitMs parse 1 e1 (random 1)],
              notices = [(finalWaitMs parse 1 e1 (random 1), 1)]\<rparr>"
      by (simp add: step1 attempt_loop_stop MAX_RETRIES_def)
    with e1 False show ?thesis by (rule second)
  next
    case True
    then obtain e2 where e2: "attempt_body parse (backend 2) = Inl e2" "isRateLimitError e2"
      by (auto simp: rate_limited_iff)
    have "run = attempt_loop parse backend random 3
      \<lparr>outcome = Inl NonError, calls = 2,
       waits = [finalWaitMs parse 1 e1 (random 1), finalWaitMs parse 2 e2 (random 2)],
       notices = [(finalWaitMs parse 1 e1 (random 1), 1), (finalWaitMs parse 2 e2 (random 2), 2)]\<rparr>"
      using e2 attempt_loop_retry[of 2 parse backend e2]
      by (simp add: step1 MAX_RETRIES_def numeral_2_eq_2 numeral_3_eq_3)
    then have "run = \<lparr>outcome = attempt_body parse (backend 3), calls = 3,
              waits = [finalWaitMs parse 1 e1 (random 1), finalWaitMs parse 2 e2 (random 2)],
              notices = [(finalWaitMs parse 1 e1 (random 1), 1),
                         (finalWaitMs parse 2 e2 (random 2), 2)]\<rparr>"
      by (simp add: attempt_loop_stop MAX_RETRIES_def)
    with e1 e2 show ?thesis by (rule third)
  qed
qed

lemma isRateLimitError_429: "isRateLimitError (JsError ''got status: 429 Too Many Requests'')"
  by code_simp

lemma rate_limited_always_429: "rate_limited parse (always_429 n)"
  using isRateLimitError_429 by (simp add: rate_limited_def attempt_body_def always_429_def)

text \<open>
  Claim C4, as stated, fails: when all three attempts fail with the same rate-limit error,
  the run throws that error (after 3 calls), not the error
  \<^verbatim>\<open>Exceeded max retries (3) for Google AI API.\<close>
\<close>

theorem exhausted_retries_counterexample:
  "outcome (getGoogleAIAction True JSON_parse always_429 no_jitter)
     = Inl (JsError ''got status: 429 Too Many Requests'') \<and>
   outcome (getGoogleAIAction True JSON_parse always_429 no_jitter) \<noteq> Inl exhausted_error \<and>
   calls (getGoogleAIAction True JSON_parse always_429 no_jitter) = 3"
proof (cases rule: getGoogleAIAction_cases[of JSON_parse always_429 no_jitter])
  case first
  then show ?thesis using rate_limited_always_429 by simp
next
  case (second e1)
  then show ?thesis using rate_limited_always_429 by simp
next
  case (third e1 e2)
  from third(5) have "outcome (getGoogleAIAction True JSON_parse always_429 no_jitter)
      = Inl (JsError ''got status: 429 Too Many Requests'')"
    by (simp add: attempt_body_def always_429_def)
  moreover from third(5) have "calls (getGoogleAIAction True JSON_parse always_429 no_jitter) = 3"
    by simp
  moreover have "JsError ''got status: 429 Too Many Requests'' \<noteq> exhausted_error"
    by (simp add: exhausted_error_def)
  ultimately show ?thesis by simp
qed

text \<open>
  Claim C4, amended. When the first two attempts fail with rate-limit errors and the third
  fails with the rate-limit error \<open>e3\<close>, the run throws \<open>e3\<close> itself, after 3 calls and
  2 waits. In every run the outcome is the outcome of the last attempt made, so the
  statement after the loop, which throws the exhausted-retries error, is never reached.
\<close>

theorem exhausted_retries_rethrow:
  "(rate_limited parse (backend 1) \<and> rate_limited parse (backend 2) \<and>
      attempt_body parse (backend 3) = Inl e3 \<and> isRateLimitError e3
    \<longrightarrow> outcome (getGoogleAIAction True parse backend random) = Inl e3 \<and>
        calls (getGoogleAIAction True parse backend random) = 3 \<and>
        length (waits (getGoogleAIAction True parse backend random)) = 2) \<and>
   outcome (getGoogleAIAction True parse backend random)
     = attempt_body parse (backend (calls (getGoogleAIAction True parse backend random)))"
proof (cases rule: getGoogleAIAction_cases[of parse backend random])
  case first
  then show ?thesis by simp
next
  case (second e1)
  then show ?thesis by simp
next
  case (third e1 e2)
  then show ?thesis by simp
qed

theorem exhausted_retries_rethrow_witness:
  "outcome (getGoogleAIAction True JSON_parse always_429 no_jitter)
     = Inl (JsError ''got status: 429 Too Many Requests'') \<and>
   calls (getGoogleAIAction True JSON_parse always_429 no_jitter) = 3 \<and>
   length (waits (getGoogleAIAction True JSON_parse always_429 no_jitter)) = 2"
proof -
  have "attempt_body JSON_parse (always_429 3) = Inl (JsError ''got status: 429 Too Many Requests'')"
    by (simp add: attempt_body_def always_429_def)
  with exhausted_retries_rethrow[of JSON_parse always_429
         "JsError ''got status: 429 Too Many Requests''" no_jitter]
       rate_limited_always_429 isRateLimitError_429
  show ?thesis by simp
qed

section \<open>Tick engine: the map of drones\<close>

lemma map_of_modify:
  "map_of (modify k f m) k' = (if k' = k then map_option f (map_of m k') else map_of m k')"
  by (induction m) (auto simp: modify_def)

lemma drone_step_attacking:
  assumes "map_of m k = Some drone" "status drone = Attacking" "targetId drone = Some tid" "tid \<noteq> []"
    and "map_of m tid = Some target" "status target \<noteq> Disabled"
  shows "drone_step k m = engage k drone tid target m"
  using assms by (simp add: drone_step_def truthy_id_def)

lemma update_values: "snd ` set (AList.update k v al) \<subseteq> insert v (snd ` set al)"
  by (induction al) auto

lemma snapshot_fold_values:
  "snd ` set (foldl (\<lambda>m d. AList.update (drone_id d) d m) m0 ds) \<subseteq> snd ` set m0 \<union> set ds"
proof (induction ds arbitrary: m0)
  case Nil
  then show ?case by simp
next
  case (Cons d ds)
  have "snd ` set (foldl (\<lambda>m d. AList.update (drone_id d) d m) (AList.update (drone_id d) d m0) ds)
          \<subseteq> snd ` set (AList.update (drone_id d) d m0) \<union> set ds"
    by (rule Cons.IH)
  also have "\<dots> \<subseteq> insert d (snd ` set m0) \<union> set ds"
    using update_values[of "drone_id d" d m0] by blast
  finally show ?case by auto
qed

lemma snapshot_values: "snd ` set (snapshot ds) \<subseteq> set ds"
  using snapshot_fold_values[of "[]" ds] by (simp add: snapshot_def)

lemma map_of_value: "map_of m k = Some d \<Longrightarrow> d \<in> snd ` set m"
  by (force dest: map_of_SomeD)

lemma update_fresh: "k \<notin> fst ` set al \<Longrightarrow> AList.update k v al = al @ [(k, v)]"
  by (induction al) auto

lemma snapshot_fold_distinct:
  "distinct (map drone_id ds) \<Longrightarrow> fst ` set m0 \<inter> drone_id ` set ds = {} \<Longrightarrow>
   foldl (\<lambda>m d. AList.update (drone_id d) d m) m0 ds = m0 @ map (\<lambda>d. (drone_id d, d)) ds"
proof (induction ds arbitrary: m0)
  case Nil
  show ?case by simp
next
  case (Cons d ds)
  from Cons.prems have fresh: "drone_id d \<notin> fst ` set m0" by auto
  have "fst ` set (m0 @ [(drone_id d, d)]) \<inter> drone_id ` set ds = {}"
    using Cons.prems by auto
  with Cons.prems Cons.IH[of "m0 @ [(drone_id d, d)]"] fresh show ?case
    by (simp add: update_fresh)
qed

lemma snapshot_distinct:
  "distinct (map drone_id ds) \<Longrightarrow> snapshot ds = map (\<lambda>d. (drone_id d, d)) ds"
  using snapshot_fold_distinct[of ds "[]"] by (simp add: snapshot_def)

lemma map_of_snapshot:
  assumes "distinct (map drone_id ds)" "d \<in> set ds"
  shows "map_of (snapshot ds) (drone_id d) = Some d"
proof -
  have "distinct (map fst (map (\<lambda>d. (drone_id d, d)) ds))"
    using assms(1) by (simp add: comp_def)
  moreover have "(drone_id d, d) \<in> set (map (\<lambda>d. (drone_id d, d)) ds)"
    using assms(2) by auto
  ultimately show ?thesis
    using assms(1) by (simp add: snapshot_distinct)
qed



lemma engage_in_range:
  assumes "map_of m k = Some drone" "map_of m tid = Some target"
    and "\<not> num_greater (measured_distance (position drone) (position target)) ATTACK_RANGE"
  shows "\<exists>drone' target'. map_of (engage k drone tid target m) k = Some drone' \<and>
           map_of (engage k drone tid target m) tid = Some target' \<and>
           health target' = max 0 (health target - ATTACK_DAMAGE) \<and>
           position drone' = position drone \<and> position target' = position target"
  using assms
  by (auto simp: engage_def Let_def map_of_modify measured_distance_def delta_x_def delta_y_def)


section \<open>Scheduler: folding a decision into the roster\<close>

lemma find_map_update:
  assumes "\<And>d. drone_id (f d) = drone_id d"
  shows "find (\<lambda>d. drone_id d = i) (map (\<lambda>d. if drone_id d = i then f d else d) ds)
           = map_option f (find (\<lambda>d. drone_id d = i) ds)"
  using assms by (induction ds) auto

lemma friendlySwarm_updateDroneIntent:
  assumes "prefix ''b-'' (drone_id drone) \<longleftrightarrow> swarmId drone = blue"
  shows "friendlySwarm drone (updateDroneIntent (drone_id drone) f w)
           = map (\<lambda>d. if drone_id d = drone_id drone then f d else d) (friendlySwarm drone w)"
  using assms by (auto simp: friendlySwarm_def updateDroneIntent_def)

lemma current_after_update:
  assumes "prefix ''b-'' (drone_id drone) \<longleftrightarrow> swarmId drone = blue"
    and "\<And>d. drone_id (f d) = drone_id d"
  shows "find (\<lambda>d. drone_id d = drone_id drone)
           (friendlySwarm drone ((updateDroneIntent (drone_id drone) f w)\<lparr>thinkingDrones := t\<rparr>))
         = map_option f (find (\<lambda>d. drone_id d = drone_id drone) (friendlySwarm drone w))"
proof -
  have "friendlySwarm drone ((updateDroneIntent (drone_id drone) f w)\<lparr>thinkingDrones := t\<rparr>)
          = friendlySwarm drone (updateDroneIntent (drone_id drone) f w)"
    by (simp add: friendlySwarm_def)
  then show ?thesis
    using assms by (simp add: friendlySwarm_updateDroneIntent find_map_update)
qed

lemma resume_applies:
  assumes "simulationState w = Running"
    and "find (\<lambda>d. drone_id d = drone_id drone) (friendlySwarm drone w) = Some cur"
    and "status cur \<noteq> Disabled"
  shows "runDroneLogic_resume drone (Answered (Some s)) w =
           (apply_stratagem drone s w)
             \<lparr>thinkingDrones := thinkingDrones (apply_stratagem drone s w) - {drone_id drone}\<rparr>"
  using assms by (simp add: runDroneLogic_resume_def Let_def)

lemma no_active_target:
  assumes "case tid of None \<Rightarrow> True
           | Some t \<Rightarrow> \<forall>e \<in> set (enemySwarm drone w). drone_id e = t \<longrightarrow> status e = Disabled"
  shows "\<not> (truthy_id tid \<and> list_ex (\<lambda>e. drone_id e = the tid) (activeEnemies drone w))"
  using assms by (auto simp: truthy_id_def activeEnemies_def list_ex_iff split: option.splits)

text \<open>
  Claim C9. When the checks after the \<^verbatim>\<open>await\<close> pass (the simulation runs, the roster's
  entry \<open>cur\<close> of the drone is not disabled), an Attack decision whose target id is
  absent or names no enemy that is not disabled turns the entry into \<open>cur\<close> with status
  Idle and nothing else changed, so \<open>targetId\<close> keeps its value; a Move decision and a
  Hold decision both leave \<open>targetId = None\<close>.
\<close>

theorem invalid_attack_keeps_targetId:
  "simulationState w = Running \<and>
   find (\<lambda>d. drone_id d = drone_id drone) (friendlySwarm drone w) = Some cur \<and>
   status cur \<noteq> Disabled \<and>
   (prefix ''b-'' (drone_id drone) \<longleftrightarrow> swarmId drone = blue) \<longrightarrow>
   (action_type (action s) = ATTACK \<and>
    (case target_id (action s) of
       None \<Rightarrow> True
     | Some t \<Rightarrow> \<forall>e \<in> set (enemySwarm drone w). drone_id e = t \<longrightarrow> status e = Disabled) \<longrightarrow>
    find (\<lambda>d. drone_id d = drone_id drone)
         (friendlySwarm drone (runDroneLogic_resume drone (Answered (Some s)) w))
      = Some (cur\<lparr>status := Idle\<rparr>)) \<and>
   (action_type (action s) = MOVE \<longrightarrow>
    (\<exists>p. find (\<lambda>d. drone_id d = drone_id drone)
         (friendlySwarm drone (runDroneLogic_resume drone (Answered (Some s)) w))
      = Some (cur\<lparr>status := Moving, targetPosition := p, targetId := None\<rparr>))) \<and>
   (action_type (action s) = HOLD \<longrightarrow>
    find (\<lambda>d. drone_id d = drone_id drone)
         (friendlySwarm drone (runDroneLogic_resume drone (Answered (Some s)) w))
      = Some (cur\<lparr>status := Idle, targetId := None\<rparr>))"
proof (intro impI conjI; (elim conjE)?)
  assume pre: "simulationState w = Running"
    "find (\<lambda>d. drone_id d = drone_id drone) (friendlySwarm drone w) = Some cur"
    "status cur \<noteq> Disabled" "prefix ''b-'' (drone_id drone) \<longleftrightarrow> swarmId drone = blue"
  note resume = resume_applies[OF pre(1-3)]
  {
    assume "action_type (action s) = ATTACK"
      and "case target_id (action s) of None \<Rightarrow> True
           | Some t \<Rightarrow> \<forall>e \<in> set (enemySwarm drone w). drone_id e = t \<longrightarrow> status e = Disabled"
    then have att: "action_type (action s) = ATTACK"
      and "\<not> (truthy_id (target_id (action s)) \<and>
             list_ex (\<lambda>e. drone_id e = the (target_id (action s))) (activeEnemies drone w))"
      using no_active_target[where tid = "target_id (action s)" and drone = drone and w = w]
      by simp_all
    then have "apply_stratagem drone s w
        = updateDroneIntent (drone_id drone) (\<lambda>d. d\<lparr>status := Idle\<rparr>) w"
      by (auto simp: apply_stratagem_def Let_def)
    then show "find (\<lambda>d. drone_id d = drone_id drone)
         (friendlySwarm drone (runDroneLogic_resume drone (Answered (Some s)) w))
      = Some (cur\<lparr>status := Idle\<rparr>)"
      using pre(2,4) by (simp add: resume current_after_update)
  }
  {
    assume "action_type (action s) = MOVE"
    then have "find (\<lambda>d. drone_id d = drone_id drone)
         (friendlySwarm drone (runDroneLogic_resume drone (Answered (Some s)) w))
      = Some (cur\<lparr>status := Moving,
                    targetPosition := (case action_position (action s) of Some p \<Rightarrow> p | None \<Rightarrow> position drone),
                    targetId := None\<rparr>)"
      using pre(2,4) by (simp add: resume apply_stratagem_def current_after_update)
    then show "\<exists>p. find (\<lambda>d. drone_id d = drone_id drone)
         (friendlySwarm drone (runDroneLogic_resume drone (Answered (Some s)) w))
      = Some (cur\<lparr>status := Moving, targetPosition := p, targetId := None\<rparr>)" ..
  }
  {
    assume "action_type (action s) = HOLD"
    then show "find (\<lambda>d. drone_id d = drone_id drone)
         (friendlySwarm drone (runDroneLogic_resume drone (Answered (Some s)) w))
      = Some (cur\<lparr>status := Idle, targetId := None\<rparr>)"
      using pre(2,4) by (simp add: resume apply_stratagem_def current_after_update)
  }
qed

theorem invalid_attack_keeps_targetId_witness:
  "find (\<lambda>d. drone_id d = ''b-drone-0'')
     (blueDrones (runDroneLogic_resume scenario_attacker (Answered (Some attack_missing)) assessing_world))
   = Some (scenario_attacker\<lparr>status := Idle\<rparr>) \<and>
   targetId (scenario_attacker\<lparr>status := Idle\<rparr>) = Some ''r-drone-0''"
proof -
  have pre: "simulationState assessing_world = Running \<and>
      find (\<lambda>d. drone_id d = drone_id scenario_attacker) (friendlySwarm scenario_attacker assessing_world)
        = Some (scenario_attacker\<lparr>status := Assessing\<rparr>) \<and>
      status (scenario_attacker\<lparr>status := Assessing\<rparr>) \<noteq> Disabled \<and>
      (prefix ''b-'' (drone_id scenario_attacker) \<longleftrightarrow> swarmId scenario_attacker = blue)"
    by (simp add: assessing_world_def friendlySwarm_def scenario_attacker_def)
  have att: "action_type (action attack_missing) = ATTACK \<and>
      (case target_id (action attack_missing) of
         None \<Rightarrow> True
       | Some t \<Rightarrow> \<forall>e \<in> set (enemySwarm scenario_attacker assessing_world).
                    drone_id e = t \<longrightarrow> status e = Disabled)"
    by (simp add: attack_missing_def enemySwarm_def assessing_world_def scenario_attacker_def
        scenario_target_def)
  from invalid_attack_keeps_targetId[of assessing_world scenario_attacker
      "scenario_attacker\<lparr>status := Assessing\<rparr>" attack_missing, THEN mp, OF pre,
      THEN conjunct1, THEN mp, OF att]
  show ?thesis
    by (simp add: friendlySwarm_def scenario_attacker_def)
qed

section \<open>Runs from the initial state\<close>

lemma initial_blue: "createInitialSwarm blue = blue0 # blue_others"
  by (simp add: createInitialSwarm_def mk_def blue0_def blue_others_def
      DRONE_COUNT_PER_SWARM_def SIMULATION_WIDTH_def SIMULATION_HEIGHT_def DRONE_HEALTH_def
      digit_char_def Let_def upt_rec num_eval number_of_halves)

lemma initial_red: "createInitialSwarm red = red0 # red_others"
  by (simp add: createInitialSwarm_def mk_def red0_def red_others_def
      DRONE_COUNT_PER_SWARM_def SIMULATION_WIDTH_def SIMULATION_HEIGHT_def DRONE_HEALTH_def
      digit_char_def Let_def upt_rec num_eval number_of_halves)

lemma snapshot_world_with:
  assumes "drone_id b = ''b-drone-0''" "drone_id r = ''r-drone-0''"
  shows "snapshot (blueDrones (world_with b r t) @ redDrones (world_with b r t)) =
     (''b-drone-0'', b) # map (\<lambda>d. (drone_id d, d)) blue_others @
     (''r-drone-0'', r) # map (\<lambda>d. (drone_id d, d)) red_others"
  using assms by (simp add: snapshot_def world_with_def blue_others_def red_others_def mk_def)

lemmas world_eval = tick_def tick_loop_def snapshot_def drone_step_def move_step_def engage_def
  modify_def advance_def truthy_id_def world_with_def blue_others_def red_others_def mk_def
  blue0_def red0_def DRONE_SPEED_def ATTACK_RANGE_def ATTACK_DAMAGE_def Let_def num_eval

lemmas think_eval = runDroneLogic_start_def runDroneLogic_resume_def apply_stratagem_def
  updateDroneIntent_def friendlySwarm_def enemySwarm_def activeEnemies_def truthy_id_def
  world_with_def blue_others_def red_others_def mk_def blue0_def red0_def Let_def

lemma initial_running: "initial_world\<lparr>simulationState := Running\<rparr> = world_with blue0 red0 {}"
  by (simp add: initial_world_def initial_blue initial_red world_with_def)

lemma stale_move_start1:
  "runDroneLogic_start blue0 (world_with blue0 red0 {})
     = Some (world_with (blue0\<lparr>status := Assessing\<rparr>) red0 {''b-drone-0''})"
  by (simp add: think_eval)

lemma stale_move_resume1:
  "runDroneLogic_resume blue0 (Answered (Some move_up))
       (world_with (blue0\<lparr>status := Assessing\<rparr>) red0 {''b-drone-0''})
     = world_with (blue0\<lparr>status := Moving, targetPosition := \<lparr>vec_x = Finite 250, vec_y = Finite 400\<rparr>\<rparr>) red0 {}"
  by (simp add: think_eval move_up_def)

lemma sqrt_10000: "sqrt 10000 = 100"
  by (rule real_sqrt_unique) simp_all

lemma sqrt_9801: "sqrt 9801 = 99"
  by (rule real_sqrt_unique) simp_all

lemma sqrt_4: "sqrt 4 = 2"
  by (rule real_sqrt_unique) simp_all

lemma stale_move_tick1:
  "tick (world_with (blue0\<lparr>status := Moving, targetPosition := \<lparr>vec_x = Finite 250, vec_y = Finite 400\<rparr>\<rparr>) red0 {})
     = world_with (blue0\<lparr>status := Moving, targetPosition := \<lparr>vec_x = Finite 250, vec_y = Finite 400\<rparr>,
                         position := \<lparr>vec_x = Finite 250, vec_y = Finite 499\<rparr>\<rparr>) red0 {}"
  by (simp add: world_eval sqrt_10000)

lemma stale_move_tick2:
  "tick (world_with (blue0\<lparr>status := Moving, targetPosition := \<lparr>vec_x = Finite 250, vec_y = Finite 400\<rparr>,
                         position := \<lparr>vec_x = Finite 250, vec_y = Finite 499\<rparr>\<rparr>) red0 {})
     = world_with (blue0\<lparr>status := Moving, targetPosition := \<lparr>vec_x = Finite 250, vec_y = Finite 400\<rparr>,
                         position := \<lparr>vec_x = Finite 250, vec_y = Finite 498\<rparr>\<rparr>) red0 {}"
  by (simp add: world_eval sqrt_9801)

lemma stale_move_start2:
  "runDroneLogic_start blue0
       (world_with (blue0\<lparr>status := Moving, targetPosition := \<lparr>vec_x = Finite 250, vec_y = Finite 400\<rparr>,
                         position := \<lparr>vec_x = Finite 250, vec_y = Finite 498\<rparr>\<rparr>) red0 {})
     = Some (world_with (blue0\<lparr>status := Assessing, targetPosition := \<lparr>vec_x = Finite 250, vec_y = Finite 400\<rparr>,
                         position := \<lparr>vec_x = Finite 250, vec_y = Finite 498\<rparr>\<rparr>) red0 {''b-drone-0''})"
  by (simp add: think_eval)

lemma stale_move_resume2:
  "runDroneLogic_resume blue0 (Answered (Some move_nowhere))
       (world_with (blue0\<lparr>status := Assessing, targetPosition := \<lparr>vec_x = Finite 250, vec_y = Finite 400\<rparr>,
                         position := \<lparr>vec_x = Finite 250, vec_y = Finite 498\<rparr>\<rparr>) red0 {''b-drone-0''})
     = world_with (blue0\<lparr>status := Moving, targetPosition := \<lparr>vec_x = Finite 250, vec_y = Finite 500\<rparr>,
                         position := \<lparr>vec_x = Finite 250, vec_y = Finite 498\<rparr>\<rparr>) red0 {}"
  by (simp add: think_eval move_nowhere_def)

lemma stale_move_tick3:
  "tick (world_with (blue0\<lparr>status := Moving, targetPosition := \<lparr>vec_x = Finite 250, vec_y = Finite 500\<rparr>,
                         position := \<lparr>vec_x = Finite 250, vec_y = Finite 498\<rparr>\<rparr>) red0 {})
     = world_with (blue0\<lparr>status := Moving, targetPosition := \<lparr>vec_x = Finite 250, vec_y = Finite 500\<rparr>,
                         position := \<lparr>vec_x = Finite 250, vec_y = Finite 499\<rparr>\<rparr>) red0 {}"
  by (simp add: world_eval sqrt_4)

lemma sqrt_below: "100 < p \<Longrightarrow> sqrt ((100 - p) * (100 - p)) = p - 100"
  by (simp add: real_sqrt_abs2)

lemma unit_down: "100 < p \<Longrightarrow> (100 - p) / (p - 100) = - 1" for p :: real
  by (simp add: divide_eq_minus_1_iff)

lemma approach_tick:
  "p \<in> \<int> \<Longrightarrow> 175 < p \<Longrightarrow> p \<le> 500 \<Longrightarrow> tick (approach p) = approach (p - 1)"
  by (simp add: approach_def world_eval sqrt_below unit_down)

lemma sqrt_5625: "sqrt 5625 = 75"
  by (rule real_sqrt_unique) simp_all

lemma siege_tick: "5 < h \<Longrightarrow> tick (siege h) = siege (h - 5)"
  by (simp add: siege_def world_eval sqrt_5625)

lemma siege_last:
  "tick (siege 5) = world_with
     (blue0\<lparr>status := Idle, targetId := None, position := \<lparr>vec_x = Finite 250, vec_y = Finite 175\<rparr>\<rparr>)
     (red0\<lparr>health := 0, status := Disabled\<rparr>) {}"
  by (simp add: siege_def world_eval sqrt_5625)

lemma approach_ticks: "n \<le> 325 \<Longrightarrow> (tick ^^ n) (approach 500) = approach (500 - real n)"
proof (induction n)
  case 0
  show ?case by simp
next
  case (Suc n)
  then have "(tick ^^ n) (approach 500) = approach (500 - real n)" by simp
  moreover have "175 < 500 - real n" "500 - real n \<le> 500" "500 - real n \<in> \<int>"
    using Suc.prems by simp_all
  ultimately have "(tick ^^ Suc n) (approach 500) = approach (500 - real n - 1)"
    by (simp add: approach_tick)
  then show ?case by (simp add: algebra_simps)
qed

lemma siege_ticks: "n \<le> 19 \<Longrightarrow> (tick ^^ n) (siege 100) = siege (100 - 5 * int n)"
proof (induction n)
  case 0
  show ?case by simp
next
  case (Suc n)
  then have "(tick ^^ n) (siege 100) = siege (100 - 5 * int n)" by simp
  moreover have "5 < 100 - 5 * int n" using Suc.prems by simp
  ultimately have "(tick ^^ Suc n) (siege 100) = siege (100 - 5 * int n - 5)"
    by (simp add: siege_tick)
  then show ?case by (simp add: algebra_simps)
qed

lemma approach_done: "approach 175 = siege 100"
  by (simp add: approach_def siege_def red0_def mk_def)

lemma reachable_ticks:
  "reachable w \<Longrightarrow> (\<And>i. i < n \<Longrightarrow> simulationState ((tick ^^ i) w) = Running) \<Longrightarrow>
   reachable ((tick ^^ n) w)"
proof (induction n)
  case 0
  then show ?case by simp
next
  case (Suc n)
  then have "reachable ((tick ^^ n) w)" by simp
  moreover have "simulationState ((tick ^^ n) w) = Running" using Suc.prems(2)[of n] by simp
  ultimately show ?case by (simp add: reachable.tick)
qed

lemma revival_start1:
  "runDroneLogic_start blue0 (world_with blue0 red0 {})
     = Some (world_with (blue0\<lparr>status := Assessing\<rparr>) red0 {''b-drone-0''})"
  by (simp add: think_eval)

lemma revival_resume1:
  "runDroneLogic_resume blue0 (Answered (Some attack_red0))
       (world_with (blue0\<lparr>status := Assessing\<rparr>) red0 {''b-drone-0''})
     = approach 500"
  by (simp add: think_eval attack_red0_def approach_def)

lemma running_world_with [simp]: "simulationState (world_with b r t) = Running"
  by (simp add: world_with_def)

lemma reachable_approach: "reachable (approach 500)"
proof -
  have "reachable (world_with blue0 red0 {})"
    using reachable.control[OF reachable.init, of Running] by (simp add: initial_running)
  then have "reachable (world_with (blue0\<lparr>status := Assessing\<rparr>) red0 {''b-drone-0''})"
    using revival_start1 by (rule reachable.think_start)
  then have "reachable (runDroneLogic_resume blue0 (Answered (Some attack_red0))
       (world_with (blue0\<lparr>status := Assessing\<rparr>) red0 {''b-drone-0''}))"
    by (rule reachable.think_resume)
  then show ?thesis by (simp add: revival_resume1)
qed

lemma reachable_siege_100: "reachable (siege 100)"
proof -
  have "reachable ((tick ^^ 325) (approach 500))"
  proof (rule reachable_ticks[OF reachable_approach])
    fix i :: nat assume "i < 325"
    then have "(tick ^^ i) (approach 500) = approach (500 - real i)"
      by (simp add: approach_ticks)
    then show "simulationState ((tick ^^ i) (approach 500)) = Running"
      by (simp add: approach_def)
  qed
  then show ?thesis by (simp add: approach_ticks approach_done)
qed

lemma reachable_siege_5: "reachable (siege 5)"
proof -
  have "reachable ((tick ^^ 19) (siege 100))"
  proof (rule reachable_ticks[OF reachable_siege_100])
    fix i :: nat assume "i < 19"
    then have "(tick ^^ i) (siege 100) = siege (100 - 5 * int i)"
      by (simp add: siege_ticks)
    then show "simulationState ((tick ^^ i) (siege 100)) = Running"
      by (simp add: siege_def)
  qed
  then show ?thesis by (simp add: siege_ticks)
qed

lemma reachable_killed: "reachable killed_world"
proof -
  have "simulationState (siege 5) = Running"
    by (simp add: siege_def)
  with reachable_siege_5 have "reachable (tick (siege 5))"
    by (rule reachable.tick)
  then show ?thesis
    by (simp only: siege_last killed_world_def)
qed

lemma revival_revive: "runDroneLogic_start red0 killed_world = Some revived_world"
  by (simp add: think_eval killed_world_def revived_world_def)

lemma revival_offer: "runDroneLogic_start blue0 revived_world = Some offered_world"
  by (simp add: think_eval revived_world_def offered_world_def insert_commute)

lemma revival_offered: "list_ex (\<lambda>e. drone_id e = ''r-drone-0'') (activeEnemies blue0 offered_world)"
  by (simp add: think_eval offered_world_def)

lemma revival_accept:
  "runDroneLogic_resume blue0 (Answered (Some attack_red0)) offered_world = accepted_world"
  by (simp add: think_eval attack_red0_def offered_world_def accepted_world_def)

lemma revival_second_kill:
  "tick accepted_world = world_with
     (blue0\<lparr>status := Idle, targetId := None, position := \<lparr>vec_x = Finite 250, vec_y = Finite 175\<rparr>\<rparr>)
     (red0\<lparr>health := 0, status := Disabled\<rparr>) {''r-drone-0''}"
  by (simp add: accepted_world_def world_eval sqrt_5625)

section \<open>Scheduler: the drone object of a think cycle\<close>

lemma reachable_stale_move_world: "reachable stale_move_world"
proof -
  have "reachable (world_with blue0 red0 {})"
    using reachable.control[OF reachable.init, of Running] by (simp add: initial_running)
  then have "reachable (world_with (blue0\<lparr>status := Assessing\<rparr>) red0 {''b-drone-0''})"
    using stale_move_start1 by (rule reachable.think_start)
  then have "reachable (runDroneLogic_resume blue0 (Answered (Some move_up))
       (world_with (blue0\<lparr>status := Assessing\<rparr>) red0 {''b-drone-0''}))"
    by (rule reachable.think_resume)
  then have "reachable (world_with
      (blue0\<lparr>status := Moving, targetPosition := \<lparr>vec_x = Finite 250, vec_y = Finite 400\<rparr>\<rparr>) red0 {})"
    by (simp only: stale_move_resume1)
  then have "reachable (tick (world_with
      (blue0\<lparr>status := Moving, targetPosition := \<lparr>vec_x = Finite 250, vec_y = Finite 400\<rparr>\<rparr>) red0 {}))"
    by (rule reachable.tick) simp
  then have "reachable (world_with (blue0\<lparr>status := Moving,
      targetPosition := \<lparr>vec_x = Finite 250, vec_y = Finite 400\<rparr>, position := \<lparr>vec_x = Finite 250, vec_y = Finite 499\<rparr>\<rparr>) red0 {})"
    by (simp only: stale_move_tick1)
  then have "reachable (tick (world_with (blue0\<lparr>status := Moving,
      targetPosition := \<lparr>vec_x = Finite 250, vec_y = Finite 400\<rparr>, position := \<lparr>vec_x = Finite 250, vec_y = Finite 499\<rparr>\<rparr>) red0 {}))"
    by (rule reachable.tick) simp
  then have "reachable (world_with (blue0\<lparr>status := Moving,
      targetPosition := \<lparr>vec_x = Finite 250, vec_y = Finite 400\<rparr>, position := \<lparr>vec_x = Finite 250, vec_y = Finite 498\<rparr>\<rparr>) red0 {})"
    by (simp only: stale_move_tick2)
  then show ?thesis
    unfolding stale_move_world_def using stale_move_start2 by (rule reachable.think_start)
qed

text \<open>
  Claim C10 on the code. The fallback of a Move decision without a position is the
  position of the function's argument, the object the think loop was started with. In
  the run below \<^verbatim>\<open>b-drone-0\<close> has moved from (250, 500) to (250, 498) when such a decision
  arrives: its target becomes (250, 500), not where it stands, and the next tick moves it
  to (250, 499) and leaves it Moving.
\<close>

theorem move_without_position_goes_back:
  "blue0 = hd (createInitialSwarm blue) \<and>
   reachable stale_move_world \<and>
   find (\<lambda>d. drone_id d = ''b-drone-0'') (blueDrones stale_move_world)
     = Some (blue0\<lparr>status := Assessing, targetPosition := \<lparr>vec_x = Finite 250, vec_y = Finite 400\<rparr>,
                    position := \<lparr>vec_x = Finite 250, vec_y = Finite 498\<rparr>\<rparr>) \<and>
   find (\<lambda>d. drone_id d = ''b-drone-0'')
        (blueDrones (runDroneLogic_resume blue0 (Answered (Some move_nowhere)) stale_move_world))
     = Some (blue0\<lparr>status := Moving, targetPosition := \<lparr>vec_x = Finite 250, vec_y = Finite 500\<rparr>,
                    position := \<lparr>vec_x = Finite 250, vec_y = Finite 498\<rparr>\<rparr>) \<and>
   find (\<lambda>d. drone_id d = ''b-drone-0'')
        (blueDrones (tick (runDroneLogic_resume blue0 (Answered (Some move_nowhere)) stale_move_world)))
     = Some (blue0\<lparr>status := Moving, targetPosition := \<lparr>vec_x = Finite 250, vec_y = Finite 500\<rparr>,
                    position := \<lparr>vec_x = Finite 250, vec_y = Finite 499\<rparr>\<rparr>)"
proof -
  have resume: "runDroneLogic_resume blue0 (Answered (Some move_nowhere)) stale_move_world
      = world_with (blue0\<lparr>status := Moving, targetPosition := \<lparr>vec_x = Finite 250, vec_y = Finite 500\<rparr>,
                         position := \<lparr>vec_x = Finite 250, vec_y = Finite 498\<rparr>\<rparr>) red0 {}"
    unfolding stale_move_world_def by (rule stale_move_resume2)
  have id0: "drone_id (blue0\<lparr>status := st, targetPosition := tp, position := p\<rparr>) = ''b-drone-0''"
    for st tp p
    by (simp add: blue0_def mk_def)
  show ?thesis
    using reachable_stale_move_world
    by (simp add: resume stale_move_tick3 initial_blue) (simp add: stale_move_world_def world_with_def id0)
qed

text \<open>The guards of the think cycle hold in this run: the decision is applied.\<close>

theorem move_without_position_goes_back_witness:
  "map_option targetPosition
     (find (\<lambda>d. drone_id d = ''b-drone-0'')
        (blueDrones (runDroneLogic_resume blue0 (Answered (Some move_nowhere)) stale_move_world)))
     = Some \<lparr>vec_x = Finite 250, vec_y = Finite 500\<rparr> \<and>
   map_option position
     (find (\<lambda>d. drone_id d = ''b-drone-0'')
        (blueDrones (tick (runDroneLogic_resume blue0 (Answered (Some move_nowhere)) stale_move_world))))
     = Some \<lparr>vec_x = Finite 250, vec_y = Finite 499\<rparr>"
  using move_without_position_goes_back by simp

text \<open>
  When the target of a moving drone is the place where it stands (with finite
  coordinates), as it is when the object of the think cycle still holds the drone's
  position, the drone's turn in a tick only sets it to Idle.
\<close>

lemma move_to_own_position:
  assumes "map_of m k = Some d" "status d = Moving" "targetPosition d = position d"
    and "position d = \<lparr>vec_x = Finite x, vec_y = Finite y\<rparr>"
  shows "map_of (drone_step k m) k = Some (d\<lparr>status := Idle\<rparr>)"
  using assms
  by (simp add: drone_step_def move_step_def truthy_id_def map_of_modify DRONE_SPEED_def Let_def
      num_eval)

section \<open>Disabled drones\<close>

text \<open>
  What the tick handler alone guarantees: a drone that is Disabled is changed by no turn
  of the loop, so a tick returns it as it was (it is not attacked, not moved, and stays
  Disabled); and a blow that brings the target's health to 0 marks the target Disabled and
  sets the attacker to Idle without a target.
\<close>

lemma drone_step_keeps_disabled:
  assumes "map_of m j = Some d" "status d = Disabled"
  shows "map_of (drone_step k m) j = Some d"
proof (cases "map_of m k")
  case None
  with assms show ?thesis by (simp add: drone_step_def)
next
  case (Some drone)
  show ?thesis
  proof (cases "k = j")
    case True
    with assms Some show ?thesis by (simp add: drone_step_def)
  next
    case kj: False
    have other: "map_of (modify k f m) j = Some d" for f
      using assms kj by (simp add: map_of_modify)
    show ?thesis
    proof (cases "status drone = Attacking \<and> truthy_id (targetId drone)")
      case False
      with Some assms other show ?thesis
        by (auto simp: drone_step_def move_step_def Let_def)
    next
      case att: True
      show ?thesis
      proof (cases "map_of m (the (targetId drone))")
        case None
        with Some att other show ?thesis by (simp add: drone_step_def)
      next
        case (Some target)
        show ?thesis
        proof (cases "status target = Disabled")
          case True
          with \<open>map_of m k = Some drone\<close> att Some other show ?thesis
            by (simp add: drone_step_def)
        next
          case False
          with Some assms have tj: "the (targetId drone) \<noteq> j" by auto
          have "map_of (engage k drone (the (targetId drone)) target m) j = Some d"
            using assms kj tj by (auto simp: engage_def Let_def map_of_modify split: option.splits)
          with \<open>map_of m k = Some drone\<close> att Some False show ?thesis
            by (simp add: drone_step_def)
        qed
      qed
    qed
  qed
qed

lemma steps_keep_disabled:
  "map_of m j = Some d \<Longrightarrow> status d = Disabled \<Longrightarrow>
   map_of (foldl (\<lambda>m k. drone_step k m) m ks) j = Some d"
  by (induction ks arbitrary: m) (simp_all add: drone_step_keeps_disabled)

lemma tick_keeps_disabled:
  assumes "distinct (map drone_id (all_drones w))" "d \<in> set (all_drones w)" "status d = Disabled"
  shows "d \<in> set (all_drones (tick w))"
proof -
  let ?m = "tick_loop (snapshot (blueDrones w @ redDrones w))"
  have "map_of (snapshot (blueDrones w @ redDrones w)) (drone_id d) = Some d"
    using assms(1,2) unfolding all_drones_def by (rule map_of_snapshot)
  then have "map_of ?m (drone_id d) = Some d"
    unfolding tick_loop_def using assms(3) by (rule steps_keep_disabled)
  then have "d \<in> snd ` set ?m"
    by (rule map_of_value)
  then show ?thesis
    by (cases "swarmId d = blue") (auto simp: tick_def all_drones_def Let_def)
qed

lemma kill_marks_disabled:
  assumes "map_of m k = Some drone" "status drone = Attacking" "targetId drone = Some tid" "tid \<noteq> []"
    and "map_of m tid = Some target" "status target \<noteq> Disabled" "k \<noteq> tid"
    and "\<not> num_greater (measured_distance (position drone) (position target)) ATTACK_RANGE"
    and "health target \<le> 5"
  shows "map_of (drone_step k m) tid = Some (target\<lparr>health := 0, status := Disabled\<rparr>) \<and>
         map_of (drone_step k m) k = Some (drone\<lparr>status := Idle, targetId := None\<rparr>)"
proof -
  have "drone_step k m = engage k drone tid target m"
    using assms(1-6) by (rule drone_step_attacking)
  moreover have "max 0 (health target - ATTACK_DAMAGE) = 0"
    using assms(9) by (simp add: ATTACK_DAMAGE_def)
  ultimately show ?thesis
    using assms(1,5,7,8)
    by (simp add: engage_def Let_def map_of_modify measured_distance_def delta_x_def delta_y_def)
qed

text \<open>
  Claim C8 on the code. The guard at the start of a think cycle reads the status of the
  function's argument, the object the think loop was started with. In the run below
  \<^verbatim>\<open>r-drone-0\<close> is disabled by \<^verbatim>\<open>b-drone-0\<close> (325 ticks of approach, 20 ticks of attack);
  its next think cycle sets it to Assessing, with health 0; it is then offered to and
  accepted from an Attack decision of \<^verbatim>\<open>b-drone-0\<close>, attacked in the next tick and
  disabled a second time.
\<close>

theorem disabled_drone_is_revived:
  "red0 = hd (createInitialSwarm red) \<and> blue0 = hd (createInitialSwarm blue) \<and>
   reachable killed_world \<and>
   find (\<lambda>d. drone_id d = ''r-drone-0'') (redDrones killed_world)
     = Some (red0\<lparr>health := 0, status := Disabled\<rparr>) \<and>
   runDroneLogic_start red0 killed_world = Some revived_world \<and>
   find (\<lambda>d. drone_id d = ''r-drone-0'') (redDrones revived_world)
     = Some (red0\<lparr>health := 0, status := Assessing\<rparr>) \<and>
   runDroneLogic_start blue0 revived_world = Some offered_world \<and>
   list_ex (\<lambda>e. drone_id e = ''r-drone-0'') (activeEnemies blue0 offered_world) \<and>
   runDroneLogic_resume blue0 (Answered (Some attack_red0)) offered_world = accepted_world \<and>
   find (\<lambda>d. drone_id d = ''b-drone-0'') (blueDrones accepted_world)
     = Some (blue0\<lparr>status := Attacking, targetId := Some ''r-drone-0'',
                    position := \<lparr>vec_x = Finite 250, vec_y = Finite 175\<rparr>\<rparr>) \<and>
   reachable (tick accepted_world) \<and>
   find (\<lambda>d. drone_id d = ''r-drone-0'') (redDrones (tick accepted_world))
     = Some (red0\<lparr>health := 0, status := Disabled\<rparr>)"
proof -
  have "reachable revived_world"
    using reachable_killed revival_revive by (rule reachable.think_start)
  then have "reachable offered_world"
    using revival_offer by (rule reachable.think_start)
  then have "reachable (runDroneLogic_resume blue0 (Answered (Some attack_red0)) offered_world)"
    by (rule reachable.think_resume)
  then have "reachable accepted_world"
    by (simp only: revival_accept)
  moreover have "simulationState accepted_world = Running"
    by (simp add: accepted_world_def)
  ultimately have last: "reachable (tick accepted_world)"
    by (rule reachable.tick)
  have idr: "drone_id (red0\<lparr>health := h, status := st\<rparr>) = ''r-drone-0''" for h st
    by (simp add: red0_def mk_def)
  have idb: "drone_id (blue0\<lparr>status := st, targetId := t, position := p\<rparr>) = ''b-drone-0''" for st t p
    by (simp add: blue0_def mk_def)
  show ?thesis
    using reachable_killed last revival_revive revival_offer revival_offered revival_accept
    by (simp add: initial_blue initial_red revival_second_kill)
       (simp add: killed_world_def revived_world_def accepted_world_def world_with_def idr idb)
qed

text \<open>The entry guard of the think cycle does not stop the disabled drone.\<close>

theorem disabled_drone_is_revived_witness:
  "map_option status
     (find (\<lambda>d. drone_id d = ''r-drone-0'') (redDrones (the (runDroneLogic_start red0 killed_world))))
     = Some Assessing \<and>
   map_option status
     (find (\<lambda>d. drone_id d = ''r-drone-0'') (redDrones (tick accepted_world)))
     = Some Disabled"
  using disabled_drone_is_revived by simp

section \<open>Tick engine and scheduler: health\<close>

lemma modify_health_ok:
  assumes "\<And>d. health_ok d \<Longrightarrow> health_ok (f d)" and "\<forall>d \<in> snd ` set m. health_ok d"
  shows "\<forall>d \<in> snd ` set (modify k f m). health_ok d"
  using assms by (auto simp: modify_def split: if_splits)

lemma health_ok_advance: "health_ok d \<Longrightarrow> health_ok (advance dx dy ds d)"
  by (simp add: health_ok_def advance_def)

lemma health_ok_damage:
  "health_ok d \<Longrightarrow> health_ok (d\<lparr>health := max 0 (health d - ATTACK_DAMAGE)\<rparr>)"
  by (simp add: health_ok_def ATTACK_DAMAGE_def)

lemma engage_health_ok:
  assumes "\<forall>d \<in> snd ` set m. health_ok d"
  shows "\<forall>d \<in> snd ` set (engage k drone tid target m). health_ok d"
proof -
  let ?m1 = "modify tid (\<lambda>t. t\<lparr>health := max 0 (health t - ATTACK_DAMAGE)\<rparr>) m"
  have m1: "\<forall>d \<in> snd ` set ?m1. health_ok d"
    by (rule modify_health_ok[OF _ assms]) (rule health_ok_damage)
  have m2: "\<forall>d \<in> snd ` set (modify tid (\<lambda>t. t\<lparr>status := Disabled\<rparr>) ?m1). health_ok d"
    by (rule modify_health_ok[OF _ m1]) (simp add: health_ok_def)
  have m3: "\<forall>d \<in> snd ` set (modify k (\<lambda>d. d\<lparr>status := Idle, targetId := None\<rparr>)
      (modify tid (\<lambda>t. t\<lparr>status := Disabled\<rparr>) ?m1)). health_ok d"
    by (rule modify_health_ok[OF _ m2]) (simp add: health_ok_def)
  have adv: "\<forall>d \<in> snd ` set (modify k (advance dx dy ds) m). health_ok d" for dx dy ds
    by (rule modify_health_ok[OF _ assms]) (rule health_ok_advance)
  show ?thesis
    unfolding engage_def Let_def
    using m1 m3 adv by (simp split: option.splits)
qed

lemma move_step_health_ok:
  assumes "\<forall>d \<in> snd ` set m. health_ok d"
  shows "\<forall>d \<in> snd ` set (move_step k drone m). health_ok d"
proof -
  have snap: "\<forall>d \<in> snd ` set (modify k (\<lambda>d. d\<lparr>position := targetPosition d, status := Idle\<rparr>) m). health_ok d"
    by (rule modify_health_ok[OF _ assms]) (simp add: health_ok_def)
  have adv: "\<forall>d \<in> snd ` set (modify k (advance dx dy ds) m). health_ok d" for dx dy ds
    by (rule modify_health_ok[OF _ assms]) (rule health_ok_advance)
  show ?thesis
    unfolding move_step_def Let_def using snap adv by simp
qed

lemma drone_step_health_ok:
  assumes "\<forall>d \<in> snd ` set m. health_ok d"
  shows "\<forall>d \<in> snd ` set (drone_step k m). health_ok d"
proof -
  have demote: "\<forall>d \<in> snd ` set (modify k (\<lambda>d. d\<lparr>status := Idle, targetId := None\<rparr>) m). health_ok d"
    by (rule modify_health_ok[OF _ assms]) (simp add: health_ok_def)
  show ?thesis
    unfolding drone_step_def
    using assms demote engage_health_ok[OF assms] move_step_health_ok[OF assms]
    by (simp split: option.splits)
qed

lemma steps_health_ok:
  "\<forall>d \<in> snd ` set m. health_ok d \<Longrightarrow>
   \<forall>d \<in> snd ` set (foldl (\<lambda>m k. drone_step k m) m ks). health_ok d"
proof (induction ks arbitrary: m)
  case Nil
  then show ?case by simp
next
  case (Cons k ks)
  from Cons.prems have "\<forall>d \<in> snd ` set (drone_step k m). health_ok d"
    by (rule drone_step_health_ok)
  then have "\<forall>d \<in> snd ` set (foldl (\<lambda>m k. drone_step k m) (drone_step k m) ks). health_ok d"
    by (rule Cons.IH)
  then show ?case by (simp only: foldl_Cons)
qed

lemma tick_health_ok:
  assumes "\<forall>d \<in> set (all_drones w). health_ok d"
  shows "\<forall>d \<in> set (all_drones (tick w)). health_ok d"
proof -
  let ?m = "tick_loop (snapshot (blueDrones w @ redDrones w))"
  have "\<forall>d \<in> snd ` set (snapshot (blueDrones w @ redDrones w)). health_ok d"
    using assms snapshot_values[of "blueDrones w @ redDrones w"] by (auto simp: all_drones_def)
  then have "\<forall>d \<in> snd ` set ?m. health_ok d"
    unfolding tick_loop_def by (rule steps_health_ok)
  then show ?thesis
    by (auto simp: tick_def all_drones_def Let_def)
qed

lemma updateDroneIntent_health_ok:
  assumes "\<And>d. health (updates d) = health d" and "\<forall>d \<in> set (all_drones w). health_ok d"
  shows "\<forall>d \<in> set (all_drones (updateDroneIntent droneId updates w)). health_ok d"
  using assms by (auto simp: updateDroneIntent_def all_drones_def health_ok_def Let_def)

lemma all_drones_thinking [simp]: "all_drones (w\<lparr>thinkingDrones := t\<rparr>) = all_drones w"
  by (simp add: all_drones_def)

lemma all_drones_state [simp]: "all_drones (w\<lparr>simulationState := s\<rparr>) = all_drones w"
  by (simp add: all_drones_def)

lemma apply_stratagem_health_ok:
  assumes "\<forall>d \<in> set (all_drones w). health_ok d"
  shows "\<forall>d \<in> set (all_drones (apply_stratagem drone s w)). health_ok d"
proof -
  have upd: "\<forall>d \<in> set (all_drones (updateDroneIntent i f w)). health_ok d"
    if "\<And>d. health (f d) = health d" for i f
    using that assms by (rule updateDroneIntent_health_ok)
  have u1: "\<forall>d \<in> set (all_drones (updateDroneIntent i
      (\<lambda>d. d\<lparr>status := st, targetPosition := tp, targetId := t\<rparr>) w)). health_ok d" for i st tp t
    by (rule upd) simp
  have u2: "\<forall>d \<in> set (all_drones (updateDroneIntent i
      (\<lambda>d. d\<lparr>status := st, targetId := t\<rparr>) w)). health_ok d" for i st t
    by (rule upd) simp
  have u3: "\<forall>d \<in> set (all_drones (updateDroneIntent i
      (\<lambda>d. d\<lparr>status := st\<rparr>) w)). health_ok d" for i st
    by (rule upd) simp
  show ?thesis
    by (cases "action_type (action s)") (simp_all add: apply_stratagem_def Let_def u1 u2 u3)
qed

lemma initial_health_ok: "\<forall>d \<in> set (all_drones initial_world). health_ok d"
  by (auto simp: all_drones_def initial_world_def createInitialSwarm_def health_ok_def
      DRONE_HEALTH_def Let_def)

lemma runDroneLogic_start_health_ok:
  assumes "\<forall>d \<in> set (all_drones w). health_ok d" and "runDroneLogic_start drone w = Some w'"
  shows "\<forall>d \<in> set (all_drones w'). health_ok d"
proof -
  have "\<forall>d \<in> set (all_drones (w\<lparr>thinkingDrones := insert (drone_id drone) (thinkingDrones w)\<rparr>)). health_ok d"
    using assms(1) by simp
  then have "\<forall>d \<in> set (all_drones (updateDroneIntent (drone_id drone) (\<lambda>d. d\<lparr>status := Assessing\<rparr>)
      (w\<lparr>thinkingDrones := insert (drone_id drone) (thinkingDrones w)\<rparr>))). health_ok d"
    by (rule updateDroneIntent_health_ok[rotated]) simp
  with assms(2) show ?thesis
    by (auto simp: runDroneLogic_start_def split: if_splits)
qed

lemma runDroneLogic_resume_health_ok:
  assumes "\<forall>d \<in> set (all_drones w). health_ok d"
  shows "\<forall>d \<in> set (all_drones (runDroneLogic_resume drone r w)). health_ok d"
proof -
  have idle: "\<forall>d \<in> set (all_drones (updateDroneIntent (drone_id drone) (\<lambda>d. d\<lparr>status := Idle\<rparr>) w)). health_ok d"
    using assms by (rule updateDroneIntent_health_ok[rotated]) simp
  show ?thesis
    unfolding runDroneLogic_resume_def Let_def
    using assms idle apply_stratagem_health_ok[OF assms]
    by (simp split: oracle_result.splits option.splits)
qed

text \<open>A turn of the loop keeps the keys of the map and never raises a drone's health.\<close>

lemma modify_keys: "map fst (modify k f m) = map fst m"
  by (induction m) (auto simp: modify_def)

lemma engage_keys: "map fst (engage k drone tid target m) = map fst m"
  by (simp add: engage_def Let_def modify_keys split: option.splits)

lemma drone_step_keys: "map fst (drone_step k m) = map fst m"
  by (simp add: drone_step_def move_step_def engage_keys modify_keys Let_def split: option.splits)

lemma steps_keys: "map fst (foldl (\<lambda>m k. drone_step k m) m ks) = map fst m"
  by (induction ks arbitrary: m) (simp_all add: drone_step_keys)

lemma worn_refl: "worn d d"
  by (simp add: worn_def)

lemma worn_trans: "worn a b \<Longrightarrow> worn b c \<Longrightarrow> worn a c"
  by (auto simp: worn_def)

lemma modify_worn:
  assumes "\<And>d. worn d (f d)" and "map_of m j = Some d"
  shows "\<exists>d'. map_of (modify k f m) j = Some d' \<and> worn d d'"
  using assms by (auto simp: map_of_modify worn_refl)

lemma worn_hit: "worn t (t\<lparr>health := max 0 (health t - ATTACK_DAMAGE)\<rparr>)"
  by (simp add: worn_def ATTACK_DAMAGE_def)

lemma worn_advance: "worn d (advance dx dy ds d)"
  by (simp add: worn_def advance_def)

lemma engage_worn:
  assumes "map_of m j = Some d"
  shows "\<exists>d'. map_of (engage k drone tid target m) j = Some d' \<and> worn d d'"
proof -
  let ?m1 = "modify tid (\<lambda>t. t\<lparr>health := max 0 (health t - ATTACK_DAMAGE)\<rparr>) m"
  let ?m2 = "modify tid (\<lambda>t. t\<lparr>status := Disabled\<rparr>) ?m1"
  let ?m3 = "modify k (\<lambda>d. d\<lparr>status := Idle, targetId := None\<rparr>) ?m2"
  from assms obtain d1 where d1: "map_of ?m1 j = Some d1" "worn d d1"
    using modify_worn[OF worn_hit] by blast
  have "\<exists>d2. map_of ?m2 j = Some d2 \<and> worn d1 d2"
    using d1(1) by (rule modify_worn[rotated]) (simp add: worn_def)
  then obtain d2 where d2: "map_of ?m2 j = Some d2" "worn d1 d2" by blast
  have "\<exists>d3. map_of ?m3 j = Some d3 \<and> worn d2 d3"
    using d2(1) by (rule modify_worn[rotated]) (simp add: worn_def)
  then obtain d3 where d3: "map_of ?m3 j = Some d3" "worn d2 d3" by blast
  have w3: "worn d d3" using d1(2) d2(2) d3(2) by (blast intro: worn_trans)
  have adv: "\<exists>d'. map_of (modify k (advance dx dy ds) m) j = Some d' \<and> worn d d'" for dx dy ds
    using assms by (rule modify_worn[rotated]) (rule worn_advance)
  show ?thesis
    unfolding engage_def Let_def
    using adv d1 d3(1) w3 by (auto split: option.splits)
qed

lemma drone_step_worn:
  assumes "map_of m j = Some d"
  shows "\<exists>d'. map_of (drone_step k m) j = Some d' \<and> worn d d'"
proof -
  have idle: "\<exists>d'. map_of (modify k (\<lambda>d. d\<lparr>status := Idle, targetId := None\<rparr>) m) j = Some d' \<and> worn d d'"
    using assms by (rule modify_worn[rotated]) (simp add: worn_def)
  have snap: "\<exists>d'. map_of (modify k (\<lambda>d. d\<lparr>position := targetPosition d, status := Idle\<rparr>) m) j = Some d'
      \<and> worn d d'"
    using assms by (rule modify_worn[rotated]) (simp add: worn_def)
  have adv: "\<exists>d'. map_of (modify k (advance dx dy ds) m) j = Some d' \<and> worn d d'" for dx dy ds
    using assms by (rule modify_worn[rotated]) (rule worn_advance)
  have same: "\<exists>d'. map_of m j = Some d' \<and> worn d d'"
    using assms worn_refl by blast
  show ?thesis
    unfolding drone_step_def move_step_def Let_def
    using idle snap adv same engage_worn[OF assms]
    by (auto split: option.splits)
qed

lemma steps_worn:
  "map_of m j = Some d \<Longrightarrow>
   \<exists>d'. map_of (foldl (\<lambda>m k. drone_step k m) m ks) j = Some d' \<and> worn d d'"
proof (induction ks arbitrary: m d)
  case Nil
  then show ?case using worn_refl by auto
next
  case (Cons k ks)
  from drone_step_worn[OF Cons.prems] obtain d1 where
    d1: "map_of (drone_step k m) j = Some d1" "worn d d1" by blast
  from Cons.IH[OF d1(1)] obtain d' where
    "map_of (foldl (\<lambda>m k. drone_step k m) (drone_step k m) ks) j = Some d'" "worn d1 d'" by blast
  with d1(2) show ?case by (auto intro: worn_trans)
qed

lemma snapshot_fold_keys:
  "distinct (map fst m0) \<Longrightarrow>
   distinct (map fst (foldl (\<lambda>m d. AList.update (drone_id d) d m) m0 ds))"
  by (induction ds arbitrary: m0) (simp_all add: distinct_update)

lemma snapshot_keys: "distinct (map fst (snapshot ds))"
  using snapshot_fold_keys[of "[]" ds] by (simp add: snapshot_def)

lemma all_drones_tick:
  "set (all_drones (tick w)) = snd ` set (tick_loop (snapshot (blueDrones w @ redDrones w)))"
  by (auto simp: tick_def all_drones_def Let_def)

lemma tick_worn:
  assumes "d' \<in> set (all_drones (tick w))"
  shows "\<exists>d \<in> set (all_drones w). worn d d'"
proof -
  define m0 where "m0 = snapshot (blueDrones w @ redDrones w)"
  define m where "m = tick_loop m0"
  have keys: "map fst m = map fst m0"
    unfolding m_def tick_loop_def by (rule steps_keys)
  from assms obtain j where j: "(j, d') \<in> set m"
    unfolding all_drones_tick m_def m0_def by auto
  have "distinct (map fst m0)" unfolding m0_def by (rule snapshot_keys)
  then have "distinct (map fst m)" by (simp only: keys)
  with j have m: "map_of m j = Some d'" by simp
  from j have "j \<in> set (map fst m)" by force
  then have "j \<in> fst ` set m0" by (simp only: keys set_map)
  then obtain d where d: "map_of m0 j = Some d"
    by (metis domD dom_map_of_conv_image_fst)
  then have "d \<in> snd ` set m0" by (rule map_of_value)
  with snapshot_values[of "blueDrones w @ redDrones w"] have "d \<in> set (all_drones w)"
    by (auto simp: all_drones_def m0_def)
  moreover from steps_worn[OF d, of "map fst m0"] m have "worn d d'"
    unfolding m_def tick_loop_def by auto
  ultimately show ?thesis by blast
qed

text \<open>A blow in range, at the turn of the attacker and for the attacker that has the first turn.\<close>

lemma blow_in_range:
  assumes "map_of m k = Some drone" "status drone = Attacking" "targetId drone = Some tid" "tid \<noteq> []"
    and "map_of m tid = Some target" "status target \<noteq> Disabled"
    and "at_most (measured_distance (position drone) (position target)) 75"
  shows "map_option health (map_of (drone_step k m) tid) = Some (max 0 (health target - 5))"
proof -
  have "drone_step k m = engage k drone tid target m"
    using assms(1-6) by (rule drone_step_attacking)
  moreover have "\<not> num_greater (measured_distance (position drone) (position target)) ATTACK_RANGE"
    using assms(7)
    by (cases "measured_distance (position drone) (position target)")
       (auto simp: at_most_def num_greater_def ATTACK_RANGE_def)
  ultimately show ?thesis
    using engage_in_range[OF assms(1,5)] by (auto simp: ATTACK_DAMAGE_def)
qed

lemma first_blow:
  assumes w: "blueDrones w = a # bs" "distinct (map drone_id (all_drones w))"
    and a: "status a = Attacking" "targetId a = Some (drone_id t)" "drone_id t \<noteq> []"
    and t: "t \<in> set (all_drones w)" "status t \<noteq> Disabled"
    and r: "at_most (measured_distance (position a) (position t)) 75"
  shows "\<exists>t' \<in> set (all_drones (tick w)). drone_id t' = drone_id t \<and> health t' \<le> max 0 (health t - 5)"
proof -
  let ?ds = "blueDrones w @ redDrones w"
  let ?m0 = "snapshot ?ds"
  have dist: "distinct (map drone_id ?ds)" using w(2) by (simp add: all_drones_def)
  have m0: "?m0 = map (\<lambda>d. (drone_id d, d)) ?ds"
    using dist by (rule snapshot_distinct)
  have ka: "map_of ?m0 (drone_id a) = Some a"
    using dist by (rule map_of_snapshot) (simp add: w(1))
  have kt: "map_of ?m0 (drone_id t) = Some t"
    using dist t(1) unfolding all_drones_def by (rule map_of_snapshot)
  have "map fst ?m0 = drone_id a # map drone_id (bs @ redDrones w)"
    unfolding m0 by (simp add: w(1) comp_def)
  then have loop: "tick_loop ?m0 =
      foldl (\<lambda>m k. drone_step k m) (drone_step (drone_id a) ?m0) (map drone_id (bs @ redDrones w))"
    by (simp add: tick_loop_def)
  from blow_in_range[OF ka a kt t(2) r] obtain t1 where
    t1: "map_of (drone_step (drone_id a) ?m0) (drone_id t) = Some t1" "health t1 = max 0 (health t - 5)"
    by auto
  from drone_step_worn[OF kt, of "drone_id a"] t1(1) have "worn t t1" by auto
  from steps_worn[OF t1(1), of "map drone_id (bs @ redDrones w)"] obtain t' where
    t': "map_of (tick_loop ?m0) (drone_id t) = Some t'" "worn t1 t'"
    unfolding loop by blast
  from t'(1) have "t' \<in> set (all_drones (tick w))"
    unfolding all_drones_tick by (rule map_of_value)
  moreover from \<open>worn t t1\<close> t'(2) t1(2) have "drone_id t' = drone_id t" "health t' \<le> max 0 (health t - 5)"
    by (auto simp: worn_def)
  ultimately show ?thesis by blast
qed

text \<open>
  Claim C1. In every state the program can reach (by ticks, think cycles and the
  controls, from the initial rosters) every drone's health lies in \<open>[0, 100]\<close>, and a tick
  keeps this bound from any state that has it. The only write to health is the blow of
  an attack in range, which sets the target's health to \<open>max 0 (health - 5)\<close>: this is
  what the turn of an attacker does to a target in range, a tick whose first turn is
  such an attack leaves the target with at most that, and no drone leaves a tick with
  more health than it had.
\<close>

theorem health_stays_in_range:
  "(reachable w \<longrightarrow> (\<forall>d \<in> set (blueDrones w) \<union> set (redDrones w). 0 \<le> health d \<and> health d \<le> 100)) \<and>
   ((\<forall>d \<in> set (blueDrones w) \<union> set (redDrones w). 0 \<le> health d \<and> health d \<le> 100) \<longrightarrow>
    (\<forall>d \<in> set (blueDrones (tick w)) \<union> set (redDrones (tick w)). 0 \<le> health d \<and> health d \<le> 100) \<and>
    (\<forall>d' \<in> set (blueDrones (tick w)) \<union> set (redDrones (tick w)).
       \<exists>d \<in> set (blueDrones w) \<union> set (redDrones w). drone_id d = drone_id d' \<and> health d' \<le> health d)) \<and>
   (map_of m k = Some drone \<and> status drone = Attacking \<and> targetId drone = Some tid \<and> tid \<noteq> [] \<and>
    map_of m tid = Some target \<and> status target \<noteq> Disabled \<and>
    at_most (measured_distance (position drone) (position target)) 75 \<longrightarrow>
    map_option health (map_of (drone_step k m) tid) = Some (max 0 (health target - 5))) \<and>
   (blueDrones w = a # bs \<and> distinct (map drone_id (blueDrones w @ redDrones w)) \<and>
    status a = Attacking \<and> targetId a = Some (drone_id t) \<and> drone_id t \<noteq> [] \<and>
    t \<in> set (blueDrones w) \<union> set (redDrones w) \<and> status t \<noteq> Disabled \<and>
    at_most (measured_distance (position a) (position t)) 75 \<longrightarrow>
    (\<exists>t' \<in> set (blueDrones (tick w)) \<union> set (redDrones (tick w)).
       drone_id t' = drone_id t \<and> health t' \<le> max 0 (health t - 5)))"
proof (intro conjI impI)
  have "\<forall>d \<in> set (all_drones w). health_ok d" if "reachable w"
    using that
  proof (induction rule: reachable.induct)
    case init
    show ?case by (rule initial_health_ok)
  next
    case (control w s)
    then show ?case by simp
  next
    case (reset w)
    show ?case by (simp add: resetSimulation_def initial_health_ok)
  next
    case (tick w)
    then show ?case by (simp add: tick_health_ok)
  next
    case (think_start w drone w')
    then show ?case by (simp add: runDroneLogic_start_health_ok)
  next
    case (think_resume w drone r)
    then show ?case by (simp add: runDroneLogic_resume_health_ok)
  qed
  then show "\<forall>d \<in> set (blueDrones w) \<union> set (redDrones w). 0 \<le> health d \<and> health d \<le> 100"
    if "reachable w"
    using that unfolding all_drones_def health_ok_def set_append by blast
next
  assume "\<forall>d \<in> set (blueDrones w) \<union> set (redDrones w). 0 \<le> health d \<and> health d \<le> 100"
  then show "\<forall>d \<in> set (blueDrones (tick w)) \<union> set (redDrones (tick w)). 0 \<le> health d \<and> health d \<le> 100"
    using tick_health_ok[of w] unfolding all_drones_def health_ok_def set_append by blast
next
  assume ok: "\<forall>d \<in> set (blueDrones w) \<union> set (redDrones w). 0 \<le> health d \<and> health d \<le> 100"
  show "\<forall>d' \<in> set (blueDrones (tick w)) \<union> set (redDrones (tick w)).
       \<exists>d \<in> set (blueDrones w) \<union> set (redDrones w). drone_id d = drone_id d' \<and> health d' \<le> health d"
  proof
    fix d' assume "d' \<in> set (blueDrones (tick w)) \<union> set (redDrones (tick w))"
    then have "d' \<in> set (all_drones (tick w))" by (simp add: all_drones_def)
    then obtain d where d: "d \<in> set (all_drones w)" "worn d d'"
      using tick_worn by blast
    from d(1) have in_w: "d \<in> set (blueDrones w) \<union> set (redDrones w)" by (simp add: all_drones_def)
    with ok have "0 \<le> health d" by blast
    with d(2) have "drone_id d = drone_id d' \<and> health d' \<le> health d" by (simp add: worn_def)
    with in_w show "\<exists>d \<in> set (blueDrones w) \<union> set (redDrones w).
        drone_id d = drone_id d' \<and> health d' \<le> health d" by blast
  qed
next
  assume "map_of m k = Some drone \<and> status drone = Attacking \<and> targetId drone = Some tid \<and> tid \<noteq> [] \<and>
    map_of m tid = Some target \<and> status target \<noteq> Disabled \<and>
    at_most (measured_distance (position drone) (position target)) 75"
  then show "map_option health (map_of (drone_step k m) tid) = Some (max 0 (health target - 5))"
    by (simp add: blow_in_range)
next
  assume a: "blueDrones w = a # bs \<and> distinct (map drone_id (blueDrones w @ redDrones w)) \<and>
    status a = Attacking \<and> targetId a = Some (drone_id t) \<and> drone_id t \<noteq> [] \<and>
    t \<in> set (blueDrones w) \<union> set (redDrones w) \<and> status t \<noteq> Disabled \<and>
    at_most (measured_distance (position a) (position t)) 75"
  then have "blueDrones w = a # bs" "distinct (map drone_id (all_drones w))"
    "status a = Attacking" "targetId a = Some (drone_id t)" "drone_id t \<noteq> []"
    "t \<in> set (all_drones w)" "status t \<noteq> Disabled"
    "at_most (measured_distance (position a) (position t)) 75"
    unfolding all_drones_def set_append by blast+
  then have "\<exists>t' \<in> set (all_drones (tick w)). drone_id t' = drone_id t \<and> health t' \<le> max 0 (health t - 5)"
    by (rule first_blow)
  then show "\<exists>t' \<in> set (blueDrones (tick w)) \<union> set (redDrones (tick w)).
       drone_id t' = drone_id t \<and> health t' \<le> max 0 (health t - 5)"
    by (simp add: all_drones_def)
qed

text \<open>
  The tick that follows the approach of \<^verbatim>\<open>b-drone-0\<close>, its first blow (health 100 to 95),
  and its blow at the drone that was set back to Assessing with health 0, which stays
  at 0.
\<close>

theorem health_stays_in_range_witness:
  "list_all (\<lambda>d. 0 \<le> health d \<and> health d \<le> 100)
     (blueDrones (tick (siege 100)) @ redDrones (tick (siege 100))) \<and>
   map_option health
     (map_of (drone_step ''b-drone-0'' (snapshot (blueDrones (siege 100) @ redDrones (siege 100))))
        ''r-drone-0'') = Some 95 \<and>
   map_option health
     (map_of (drone_step ''b-drone-0'' (snapshot (blueDrones accepted_world @ redDrones accepted_world)))
        ''r-drone-0'') = Some 0 \<and>
   list_ex (\<lambda>t. drone_id t = ''r-drone-0'' \<and> health t \<le> 95)
     (blueDrones (tick (siege 100)) @ redDrones (tick (siege 100)))"
proof -
  let ?a = "blue0\<lparr>status := Attacking, targetId := Some ''r-drone-0'',
                 position := \<lparr>vec_x = Finite 250, vec_y = Finite 175\<rparr>\<rparr>"
  have "simulationState (siege 100) = Running" by (simp add: siege_def)
  with reachable_siege_100 have "reachable (tick (siege 100))" by (rule reachable.tick)
  then have bound: "list_all (\<lambda>d. 0 \<le> health d \<and> health d \<le> 100)
     (blueDrones (tick (siege 100)) @ redDrones (tick (siege 100)))"
    unfolding list_all_iff set_append
    by (rule health_stays_in_range[THEN conjunct1, THEN mp])
  have ids: "drone_id ?a = ''b-drone-0''" "drone_id (red0\<lparr>health := h\<rparr>) = ''r-drone-0''"
    "drone_id (red0\<lparr>health := h, status := s\<rparr>) = ''r-drone-0''" for h s
    by (simp_all add: blue0_def red0_def mk_def)
  have range: "at_most (measured_distance (position ?a) (position r)) 75"
    if "position r = position red0" for r
    using that
    by (simp add: blue0_def red0_def mk_def measured_distance_def delta_x_def delta_y_def
        at_most_def num_eval sqrt_5625)
  have snap1: "snapshot (blueDrones (siege 100) @ redDrones (siege 100)) =
     (''b-drone-0'', ?a) # map (\<lambda>d. (drone_id d, d)) blue_others @
     (''r-drone-0'', red0\<lparr>health := 100\<rparr>) # map (\<lambda>d. (drone_id d, d)) red_others"
    unfolding siege_def by (rule snapshot_world_with) (rule ids)+
  have hyp1: "map_of (snapshot (blueDrones (siege 100) @ redDrones (siege 100))) ''b-drone-0'' = Some ?a \<and>
      status ?a = Attacking \<and> targetId ?a = Some ''r-drone-0'' \<and> ''r-drone-0'' \<noteq> [] \<and>
      map_of (snapshot (blueDrones (siege 100) @ redDrones (siege 100))) ''r-drone-0''
        = Some (red0\<lparr>health := 100\<rparr>) \<and>
      status (red0\<lparr>health := 100\<rparr>) \<noteq> Disabled \<and>
      at_most (measured_distance (position ?a) (position (red0\<lparr>health := 100\<rparr>))) 75"
    unfolding snap1 using range[of "red0\<lparr>health := 100\<rparr>"]
    by (simp add: blue_others_def red_others_def mk_def red0_def)
  have blow1: "map_option health
     (map_of (drone_step ''b-drone-0'' (snapshot (blueDrones (siege 100) @ redDrones (siege 100))))
        ''r-drone-0'') = Some 95"
    using health_stays_in_range[THEN conjunct2, THEN conjunct2, THEN conjunct1, THEN mp, OF hyp1]
    by simp
  have snap2: "snapshot (blueDrones accepted_world @ redDrones accepted_world) =
     (''b-drone-0'', ?a) # map (\<lambda>d. (drone_id d, d)) blue_others @
     (''r-drone-0'', red0\<lparr>health := 0, status := Assessing\<rparr>) # map (\<lambda>d. (drone_id d, d)) red_others"
    unfolding accepted_world_def by (rule snapshot_world_with) (rule ids)+
  have hyp2: "map_of (snapshot (blueDrones accepted_world @ redDrones accepted_world)) ''b-drone-0'' = Some ?a \<and>
      status ?a = Attacking \<and> targetId ?a = Some ''r-drone-0'' \<and> ''r-drone-0'' \<noteq> [] \<and>
      map_of (snapshot (blueDrones accepted_world @ redDrones accepted_world)) ''r-drone-0''
        = Some (red0\<lparr>health := 0, status := Assessing\<rparr>) \<and>
      status (red0\<lparr>health := 0, status := Assessing\<rparr>) \<noteq> Disabled \<and>
      at_most (measured_distance (position ?a) (position (red0\<lparr>health := 0, status := Assessing\<rparr>))) 75"
    unfolding snap2 using range[of "red0\<lparr>health := 0, status := Assessing\<rparr>"]
    by (simp add: blue_others_def red_others_def mk_def red0_def)
  have blow2: "map_option health
     (map_of (drone_step ''b-drone-0'' (snapshot (blueDrones accepted_world @ redDrones accepted_world)))
        ''r-drone-0'') = Some 0"
    using health_stays_in_range[THEN conjunct2, THEN conjunct2, THEN conjunct1, THEN mp, OF hyp2]
    by simp
  have hyp3: "blueDrones (siege 100) = ?a # blue_others \<and>
      distinct (map drone_id (blueDrones (siege 100) @ redDrones (siege 100))) \<and>
      status ?a = Attacking \<and> targetId ?a = Some (drone_id (red0\<lparr>health := 100\<rparr>)) \<and>
      drone_id (red0\<lparr>health := 100\<rparr>) \<noteq> [] \<and>
      red0\<lparr>health := 100\<rparr> \<in> set (blueDrones (siege 100)) \<union> set (redDrones (siege 100)) \<and>
      status (red0\<lparr>health := 100\<rparr>) \<noteq> Disabled \<and>
      at_most (measured_distance (position ?a) (position (red0\<lparr>health := 100\<rparr>))) 75"
    using range[of "red0\<lparr>health := 100\<rparr>"]
    by (simp add: siege_def world_with_def blue_others_def red_others_def blue0_def red0_def mk_def)
  have "\<exists>t' \<in> set (blueDrones (tick (siege 100))) \<union> set (redDrones (tick (siege 100))).
      drone_id t' = drone_id (red0\<lparr>health := 100\<rparr>) \<and> health t' \<le> max 0 (health (red0\<lparr>health := 100\<rparr>) - 5)"
    by (rule health_stays_in_range[THEN conjunct2, THEN conjunct2, THEN conjunct2, THEN mp, OF hyp3])
  then have first: "list_ex (\<lambda>t. drone_id t = ''r-drone-0'' \<and> health t \<le> 95)
     (blueDrones (tick (siege 100)) @ redDrones (tick (siege 100)))"
    unfolding list_ex_iff set_append by (simp add: ids)
  from bound blow1 blow2 first show ?thesis by simp
qed

section \<open>Tick engine: attack range\<close>
























end
